theory Spec2Isabelle
  imports Main "HOL-Library.AList"
begin

section \<open>The plan store: \<open>app/tool/twitter_planning.py\<close>\<close>

subsection \<open>Data\<close>

text \<open>
  A post is a Python dict with the keys of the tool's parameter schema, none of them
  required: an absent key is \<open>None\<close>. Equality of records is the structural equality
  \<open>==\<close> of the dicts.
\<close>

record post =
  content :: "string option"
  hashtags :: "string list option"
  image_prompt :: "string option"
  scheduled_time :: "string option"

text \<open>
  A plan is the dict built by \<open>_create_plan\<close>. Statuses are the strings of the source
  (\<open>draft\<close>, \<open>ready\<close>, \<open>posted\<close>, \<open>failed\<close>).
\<close>

record plan =
  plan_id :: string
  title :: string
  posts :: "post list"
  post_statuses :: "string list"
  post_notes :: "string list"

text \<open>
  The tool object: \<open>plans\<close> is a dict, kept as an association list in insertion order
  (\<open>AList.update\<close> replaces in place or appends, as dict assignment does), and
  \<open>_current_plan_id\<close> is the active pointer.
\<close>

record store =
  plans :: "(string \<times> plan) list"
  current_plan_id :: "string option"

definition empty_store :: store where
  "empty_store = \<lparr>plans = [], current_plan_id = None\<rparr>"

text \<open>
  Every \<open>raise ToolError(...)\<close> of the tool is one constructor, carrying the values its
  message interpolates; the spec's names are kept where it has one. \<open>tool_error_str\<close>
  below gives the message.
\<close>

datatype tool_error =
    ParameterRequired string string
  | AlreadyExists string
  | PostsMustBeNonEmptyList
  | NotFound string
  | NoActivePlan
  | InvalidPostIndex int nat
  | InvalidPostStatus string
  | UnrecognizedCommand string

text \<open>
  Exceptions as values. \<open>KeyError\<close>, \<open>IndexError\<close>, \<open>ValueError\<close> and
  \<open>AttributeError\<close> are Python's own, with the key or the message; \<open>AgentError\<close> is
  whatever an executor or the language model raises, with its \<open>str(e)\<close>. All of them are
  caught by \<open>except Exception\<close>.
\<close>

datatype exn =
    ToolError tool_error
  | KeyError string
  | IndexError string
  | ValueError string
  | AttributeError string
  | AgentError string

text \<open>
  The text \<open>_format_plan\<close> renders is a function of the plan alone. The characters of
  the rendering (counts, percentage, glyphs) are not what any statement below is about: a
  rendered text is represented by the plan it is rendered from, and an output of the tool
  by its message and that rendering.
\<close>

datatype plan_text = Formatted plan

datatype tool_output =
    PlanCreated string plan_text
  | PlanUpdated string plan_text
  | NoPlansAvailable
  | PlanList "(string \<times> bool \<times> string \<times> nat \<times> nat) list"
  | PlanDetails plan_text
  | PlanActivated string plan_text
  | PostUpdated int string plan_text
  | PlanDeleted string

type_synonym tool_result = "store \<times> (exn + tool_output)"

subsection \<open>Python truthiness\<close>

text \<open>\<open>if x:\<close> for an optional string or list: \<open>None\<close> and the empty value are false.\<close>

definition truthy :: "'a list option \<Rightarrow> bool" where
  "truthy x = (case x of None \<Rightarrow> False | Some v \<Rightarrow> v \<noteq> [])"

subsection \<open>\<open>_format_plan\<close>\<close>

text \<open>
  The loop over \<open>zip(posts, post_statuses, post_notes)\<close> reads \<open>post['content']\<close>, which
  raises \<open>KeyError\<close> on a post without that key; every other key is read with \<open>get\<close>.
\<close>

definition format_plan :: "plan \<Rightarrow> exn + plan_text" where
  "format_plan p =
     (if list_ex (\<lambda>(po, st, n). content po = None)
           (zip (posts p) (zip (post_statuses p) (post_notes p)))
      then Inl (KeyError ''content'')
      else Inr (Formatted p))"

subsection \<open>\<open>_create_plan\<close>\<close>

definition create_plan ::
  "store \<Rightarrow> string option \<Rightarrow> string option \<Rightarrow> post list option \<Rightarrow> tool_result" where
  "create_plan s pid ttl ps =
     (if \<not> truthy pid then
        (s, Inl (ToolError (ParameterRequired ''plan_id'' ''create'')))
      else if map_of (plans s) (the pid) \<noteq> None then
        (s, Inl (ToolError (AlreadyExists (the pid))))
      else if \<not> truthy ttl then
        (s, Inl (ToolError (ParameterRequired ''title'' ''create'')))
      else if \<not> truthy ps then
        (s, Inl (ToolError PostsMustBeNonEmptyList))
      else
        let p = \<lparr>plan_id = the pid, title = the ttl, posts = the ps,
                 post_statuses = replicate (length (the ps)) ''draft'',
                 post_notes = replicate (length (the ps)) ''''\<rparr>;
            s' = s\<lparr>plans := AList.update (the pid) p (plans s),
                   current_plan_id := Some (the pid)\<rparr>
        in (s', map_sum id (PlanCreated (the pid)) (format_plan p)))"

subsection \<open>\<open>_update_plan\<close>\<close>

text \<open>
  The \<open>for i, post in enumerate(posts)\<close> loop, on the rest of the new list from index
  \<open>i\<close> on, with the two lists it appends to. \<open>old_statuses[i]\<close> and \<open>old_notes[i]\<close>
  raise \<open>IndexError\<close> when the stored lists are shorter than the stored posts.
\<close>

fun update_loop ::
  "post list \<Rightarrow> string list \<Rightarrow> string list \<Rightarrow> nat \<Rightarrow> post list \<Rightarrow>
   string list \<Rightarrow> string list \<Rightarrow> exn + (string list \<times> string list)" where
  "update_loop old_posts old_statuses old_notes i [] new_statuses new_notes =
     Inr (new_statuses, new_notes)"
| "update_loop old_posts old_statuses old_notes i (po # rest) new_statuses new_notes =
     (if i < length old_posts \<and> po = old_posts ! i then
        (if i < length old_statuses \<and> i < length old_notes then
           update_loop old_posts old_statuses old_notes (Suc i) rest
             (new_statuses @ [old_statuses ! i]) (new_notes @ [old_notes ! i])
         else Inl (IndexError ''list index out of range''))
      else
        update_loop old_posts old_statuses old_notes (Suc i) rest
          (new_statuses @ [''draft'']) (new_notes @ ['''']))"

text \<open>
  The title is assigned into the stored plan before the posts are looked at, so it stays
  assigned when the loop raises. \<open>isinstance(posts, list)\<close> holds by typing.
\<close>

definition update_plan ::
  "store \<Rightarrow> string option \<Rightarrow> string option \<Rightarrow> post list option \<Rightarrow> tool_result" where
  "update_plan s pid ttl ps =
     (if \<not> truthy pid then
        (s, Inl (ToolError (ParameterRequired ''plan_id'' ''update'')))
      else case map_of (plans s) (the pid) of
        None \<Rightarrow> (s, Inl (ToolError (NotFound (the pid))))
      | Some p0 \<Rightarrow>
          let p1 = (if truthy ttl then p0\<lparr>title := the ttl\<rparr> else p0);
              s1 = s\<lparr>plans := AList.update (the pid) p1 (plans s)\<rparr>
          in if truthy ps then
               (case update_loop (posts p1) (post_statuses p1) (post_notes p1) 0 (the ps) [] [] of
                  Inl e \<Rightarrow> (s1, Inl e)
                | Inr (new_statuses, new_notes) \<Rightarrow>
                    let p2 = p1\<lparr>posts := the ps, post_statuses := new_statuses,
                                post_notes := new_notes\<rparr>
                    in (s\<lparr>plans := AList.update (the pid) p2 (plans s)\<rparr>,
                        map_sum id (PlanUpdated (the pid)) (format_plan p2)))
             else (s1, map_sum id (PlanUpdated (the pid)) (format_plan p1)))"

subsection \<open>\<open>_list_plans\<close>, \<open>_get_plan\<close>, \<open>_set_active_plan\<close>\<close>

definition list_plans :: "store \<Rightarrow> tool_result" where
  "list_plans s =
     (if plans s = [] then (s, Inr NoPlansAvailable)
      else (s, Inr (PlanList
        (map (\<lambda>(k, p). (k, Some k = current_plan_id s, title p,
                         length (filter (\<lambda>st. st = ''posted'') (post_statuses p)),
                         length (posts p)))
             (plans s)))))"

definition get_plan :: "store \<Rightarrow> string option \<Rightarrow> tool_result" where
  "get_plan s pid =
     (if \<not> truthy pid \<and> \<not> truthy (current_plan_id s) then
        (s, Inl (ToolError NoActivePlan))
      else
        let k = (if \<not> truthy pid then the (current_plan_id s) else the pid)
        in case map_of (plans s) k of
             None \<Rightarrow> (s, Inl (ToolError (NotFound k)))
           | Some p \<Rightarrow> (s, map_sum id PlanDetails (format_plan p)))"

definition set_active_plan :: "store \<Rightarrow> string option \<Rightarrow> tool_result" where
  "set_active_plan s pid =
     (if \<not> truthy pid then
        (s, Inl (ToolError (ParameterRequired ''plan_id'' ''set_active'')))
      else case map_of (plans s) (the pid) of
        None \<Rightarrow> (s, Inl (ToolError (NotFound (the pid))))
      | Some p \<Rightarrow>
          (s\<lparr>current_plan_id := Some (the pid)\<rparr>,
           map_sum id (PlanActivated (the pid)) (format_plan p)))"

subsection \<open>\<open>_mark_post\<close>\<close>

text \<open>
  The two assignments go into the stored lists one after the other, so the status stays
  written when the note's index is out of range of \<open>post_notes\<close>, and both stay written
  when the rendering raises.
\<close>

definition valid_statuses :: "string list" where
  "valid_statuses = [''draft'', ''ready'', ''posted'', ''failed'']"

definition mark_post ::
  "store \<Rightarrow> string option \<Rightarrow> int option \<Rightarrow> string option \<Rightarrow> string option \<Rightarrow> tool_result" where
  "mark_post s pid post_index post_status notes =
     (if \<not> truthy pid \<and> \<not> truthy (current_plan_id s) then
        (s, Inl (ToolError NoActivePlan))
      else
        let k = (if \<not> truthy pid then the (current_plan_id s) else the pid)
        in case map_of (plans s) k of
             None \<Rightarrow> (s, Inl (ToolError (NotFound k)))
           | Some p0 \<Rightarrow>
               (case post_index of
                  None \<Rightarrow> (s, Inl (ToolError (ParameterRequired ''post_index'' ''mark_post'')))
                | Some ix \<Rightarrow>
                    if ix < 0 \<or> ix \<ge> int (length (posts p0)) then
                      (s, Inl (ToolError (InvalidPostIndex ix (length (posts p0)))))
                    else if truthy post_status \<and> the post_status \<notin> set valid_statuses then
                      (s, Inl (ToolError (InvalidPostStatus (the post_status))))
                    else if truthy post_status \<and> \<not> nat ix < length (post_statuses p0) then
                      (s, Inl (IndexError ''list assignment index out of range''))
                    else
                      let p1 = (if truthy post_status
                                then p0\<lparr>post_statuses := (post_statuses p0)[nat ix := the post_status]\<rparr>
                                else p0);
                          s1 = s\<lparr>plans := AList.update k p1 (plans s)\<rparr>
                      in if truthy notes \<and> \<not> nat ix < length (post_notes p1) then
                           (s1, Inl (IndexError ''list assignment index out of range''))
                         else
                           let p2 = (if truthy notes
                                     then p1\<lparr>post_notes := (post_notes p1)[nat ix := the notes]\<rparr>
                                     else p1);
                               s2 = s\<lparr>plans := AList.update k p2 (plans s)\<rparr>
                           in (s2, map_sum id (PostUpdated ix k) (format_plan p2))))"

subsection \<open>\<open>_delete_plan\<close>\<close>

definition delete_plan :: "store \<Rightarrow> string option \<Rightarrow> tool_result" where
  "delete_plan s pid =
     (if \<not> truthy pid then
        (s, Inl (ToolError (ParameterRequired ''plan_id'' ''delete'')))
      else if map_of (plans s) (the pid) = None then
        (s, Inl (ToolError (NotFound (the pid))))
      else
        let s1 = s\<lparr>plans := AList.delete (the pid) (plans s)\<rparr>;
            s2 = (if current_plan_id s1 = Some (the pid)
                  then s1\<lparr>current_plan_id := None\<rparr> else s1)
        in (s2, Inr (PlanDeleted (the pid))))"

subsection \<open>\<open>TwitterPlanningTool.execute\<close>\<close>

text \<open>The keyword arguments of \<open>execute\<close>; \<open>command\<close> is the only required one.\<close>

record tool_args =
  command :: string
  arg_plan_id :: "string option"
  arg_title :: "string option"
  arg_posts :: "post list option"
  arg_post_index :: "int option"
  arg_post_status :: "string option"
  arg_post_notes :: "string option"

definition tool_execute :: "store \<Rightarrow> tool_args \<Rightarrow> tool_result" where
  "tool_execute s a =
     (if command a = ''create'' then create_plan s (arg_plan_id a) (arg_title a) (arg_posts a)
      else if command a = ''update'' then update_plan s (arg_plan_id a) (arg_title a) (arg_posts a)
      else if command a = ''list'' then list_plans s
      else if command a = ''get'' then get_plan s (arg_plan_id a)
      else if command a = ''set_active'' then set_active_plan s (arg_plan_id a)
      else if command a = ''mark_post'' then
        mark_post s (arg_plan_id a) (arg_post_index a) (arg_post_status a) (arg_post_notes a)
      else if command a = ''delete'' then delete_plan s (arg_plan_id a)
      else (s, Inl (ToolError (UnrecognizedCommand (command a)))))"

text \<open>A sequence of calls on one tool object; a call that raises leaves the object as it is
  at the raise.\<close>

fun execute_all :: "store \<Rightarrow> tool_args list \<Rightarrow> store" where
  "execute_all s [] = s"
| "execute_all s (a # as) = execute_all (fst (tool_execute s a)) as"


section \<open>The invariant of the plan store\<close>

text \<open>
  A plan whose status list and note list are as long as its post list, and a tool object
  all of whose plans are such and have a non-empty key.
\<close>

definition aligned :: "plan \<Rightarrow> bool" where
  "aligned p = (length (post_statuses p) = length (posts p) \<and> length (post_notes p) = length (posts p))"

definition store_inv :: "store \<Rightarrow> bool" where
  "store_inv s = list_all (\<lambda>(k, p). k \<noteq> [] \<and> aligned p) (plans s)"

text \<open>A plan all of whose posts have the key \<open>content\<close>: \<open>_format_plan\<close> renders it.\<close>

definition complete_posts :: "plan \<Rightarrow> bool" where
  "complete_posts p = list_all (\<lambda>po. content po \<noteq> None) (posts p)"


section \<open>The flow: \<open>app/flow/twitter_planning_flow.py\<close>\<close>

subsection \<open>Messages\<close>

text \<open>Python's \<open>str\<close> of an index and of an exception, for the f-strings of the flow.\<close>

definition newline :: string where
  "newline = [CHR 0x0A]"

definition quoted :: "string \<Rightarrow> string" where
  "quoted s = [CHR 0x27] @ s @ [CHR 0x27]"

definition backticked :: "string \<Rightarrow> string" where
  "backticked s = [CHR 0x60] @ s @ [CHR 0x60]"

function str_nat :: "nat \<Rightarrow> string" where
  "str_nat n = (if n < 10 then [''0123456789'' ! n] else str_nat (n div 10) @ [''0123456789'' ! (n mod 10)])"
  by pat_completeness auto
termination
  by (relation "measure id") auto

declare str_nat.simps [simp del]

definition str_int :: "int \<Rightarrow> string" where
  "str_int i = (if i < 0 then ''-'' @ str_nat (nat (- i)) else str_nat (nat i))"

definition str_index :: "nat option \<Rightarrow> string" where
  "str_index i = (case i of None \<Rightarrow> ''None'' | Some n \<Rightarrow> str_nat n)"

fun tool_error_str :: "tool_error \<Rightarrow> string" where
  "tool_error_str (ParameterRequired p c) =
     ''Parameter '' @ backticked p @ '' is required for command: '' @ c"
| "tool_error_str (AlreadyExists k) =
     ''A plan with ID '' @ quoted k @ '' already exists. Use '' @ quoted ''update'' @
     '' to modify existing plans.''"
| "tool_error_str PostsMustBeNonEmptyList =
     ''Parameter '' @ backticked ''posts'' @
     '' must be a non-empty list of post objects for command: create''"
| "tool_error_str (NotFound k) = ''No plan found with ID: '' @ k"
| "tool_error_str NoActivePlan =
     ''No active plan. Please specify a plan_id or set an active plan.''"
| "tool_error_str (InvalidPostIndex ix n) =
     ''Invalid post_index: '' @ str_int ix @ ''. Valid indices range from 0 to '' @
     str_int (int n - 1) @ ''.''"
| "tool_error_str (InvalidPostStatus st) =
     ''Invalid post_status: '' @ st @ ''. Valid statuses are: draft, ready, posted, failed''"
| "tool_error_str (UnrecognizedCommand c) =
     ''Unrecognized command: '' @ c @
     ''. Allowed commands are: create, update, list, get, set_active, mark_post, delete''"

fun exn_str :: "exn \<Rightarrow> string" where
  "exn_str (ToolError e) = tool_error_str e"
| "exn_str (KeyError k) = quoted k"
| "exn_str (IndexError m) = m"
| "exn_str (ValueError m) = m"
| "exn_str (AttributeError m) = m"
| "exn_str (AgentError m) = m"

subsection \<open>Collaborators, flow object and session state\<close>

text \<open>
  The plan text the flow works with is the output of the tool's \<open>get\<close>, or one of the
  texts of \<open>_generate_plan_text_from_storage\<close>.
\<close>

datatype flow_text =
    ToolText tool_output
  | StorageText string plan
  | PlanNotFoundText string

text \<open>
  The two prompts the flow sends to an agent: the one of \<open>_execute_post\<close> (plan status,
  index, content, hashtag text, image text) and the summary prompt of \<open>_finalize_plan\<close>.
\<close>

datatype prompt =
    PostPrompt flow_text "nat option" string string string
  | SummaryPrompt flow_text

text \<open>A tool call of the model's response; \<open>Unparsable\<close> is a string \<open>json.loads\<close> rejects.\<close>

datatype call_arguments = Unparsable | Parsed tool_args

record tool_call =
  function_name :: string
  function_arguments :: call_arguments

text \<open>
  The collaborators are outside the repository. An agent is known by a value of type
  \<open>'a\<close>; \<open>'w\<close> is the state of all collaborators together. \<open>agent_run\<close> is
  \<open>executor.run(prompt)\<close> (\<open>Inl\<close> when it raises), \<open>agent_finished\<close> is
  \<open>hasattr(executor, "state") and executor.state == AgentState.FINISHED\<close>, \<open>llm_ask\<close>
  and \<open>llm_ask_tool\<close> are the two calls on \<open>self.llm\<close>, the latter giving the response's
  \<open>tool_calls\<close>. The agents get the prompt only: the tool object belongs to the flow.
\<close>

record ('a, 'w) collaborators =
  agent_run :: "'a \<Rightarrow> prompt \<Rightarrow> 'w \<Rightarrow> 'w \<times> (exn + string)"
  agent_finished :: "'a \<Rightarrow> 'w \<Rightarrow> bool"
  llm_ask :: "flow_text \<Rightarrow> 'w \<Rightarrow> 'w \<times> (exn + string)"
  llm_ask_tool :: "string \<Rightarrow> 'w \<Rightarrow> 'w \<times> (exn + tool_call list)"

text \<open>
  The fields of the flow object that stay fixed during \<open>execute\<close>; \<open>agents\<close> and
  \<open>primary_agent\<close> are those of \<open>BaseFlow\<close>, taken as given.
\<close>

record 'a flow =
  agents :: "(string \<times> 'a) list"
  primary_agent :: "'a option"
  executor_keys :: "string list"
  active_plan_id :: string

text \<open>What \<open>execute\<close> changes: the tool object, the cursor and the collaborators.\<close>

record 'w session =
  tool :: store
  current_post_index :: "nat option"
  world :: 'w

subsection \<open>\<open>PostStatus\<close> and \<open>get_executor\<close>\<close>

definition get_active_statuses :: "string list" where
  "get_active_statuses = [''draft'', ''ready'']"

definition get_executor :: "'a flow \<Rightarrow> string option \<Rightarrow> 'a option" where
  "get_executor fl post_type =
     (if truthy post_type \<and> map_of (agents fl) (the post_type) \<noteq> None then
        map_of (agents fl) (the post_type)
      else case find (\<lambda>key. map_of (agents fl) key \<noteq> None) (executor_keys fl) of
        Some key \<Rightarrow> map_of (agents fl) key
      | None \<Rightarrow> primary_agent fl)"

text \<open>Calling \<open>run\<close> on \<open>None\<close> raises \<open>AttributeError\<close>.\<close>

definition run_agent ::
  "('a, 'w) collaborators \<Rightarrow> 'a option \<Rightarrow> prompt \<Rightarrow> 'w \<Rightarrow> 'w \<times> (exn + string)" where
  "run_agent env ag pr w =
     (case ag of
        None \<Rightarrow> (w, Inl (AttributeError
                  (quoted ''NoneType'' @ '' object has no attribute '' @ quoted ''run'')))
      | Some a \<Rightarrow> agent_run env a pr w)"

subsection \<open>The calls on the tool\<close>

definition mark_post_call ::
  "string \<Rightarrow> nat option \<Rightarrow> string \<Rightarrow> string option \<Rightarrow> tool_args" where
  "mark_post_call k i st notes =
     \<lparr>command = ''mark_post'', arg_plan_id = Some k, arg_title = None, arg_posts = None,
      arg_post_index = map_option int i, arg_post_status = Some st, arg_post_notes = notes\<rparr>"

definition get_call :: "string \<Rightarrow> tool_args" where
  "get_call k =
     \<lparr>command = ''get'', arg_plan_id = Some k, arg_title = None, arg_posts = None,
      arg_post_index = None, arg_post_status = None, arg_post_notes = None\<rparr>"

subsection \<open>\<open>_get_current_post_info\<close>\<close>

text \<open>A post with the \<open>type\<close> key the flow adds to its copy.\<close>

record post_info = post +
  ptype :: string

text \<open>
  The scan \<open>for i, post in enumerate(posts)\<close> for the first post whose status, or
  \<open>draft\<close> when the status list is too short, is an active one.
\<close>

fun first_active :: "nat \<Rightarrow> post list \<Rightarrow> string list \<Rightarrow> (nat \<times> post) option" where
  "first_active i [] sts = None"
| "first_active i (po # rest) sts =
     (let status = (if i \<ge> length sts then ''draft'' else sts ! i)
      in if status \<in> set get_active_statuses then Some (i, po)
         else first_active (Suc i) rest sts)"

text \<open>
  The \<open>except\<close> branch after the failed \<open>mark_post\<close>: it works on the status list of the
  stored plan as the failed call left it.
\<close>

definition mark_ready_directly :: "store \<Rightarrow> string \<Rightarrow> nat \<Rightarrow> store" where
  "mark_ready_directly s k i =
     (case map_of (plans s) k of
        None \<Rightarrow> s
      | Some plan_data \<Rightarrow>
          let sts = post_statuses plan_data;
              sts' = (if i < length sts then sts[i := ''ready'']
                      else sts @ replicate (i - length sts) ''draft'' @ [''ready''])
          in s\<lparr>plans := AList.update k (plan_data\<lparr>post_statuses := sts'\<rparr>) (plans s)\<rparr>)"

definition get_current_post_info ::
  "'a flow \<Rightarrow> 'w session \<Rightarrow> 'w session \<times> nat option \<times> post_info option" where
  "get_current_post_info fl st =
     (if active_plan_id fl = [] then (st, None, None)
      else case map_of (plans (tool st)) (active_plan_id fl) of
        None \<Rightarrow> (st, None, None)
      | Some plan_data \<Rightarrow>
          (case first_active 0 (posts plan_data) (post_statuses plan_data) of
             None \<Rightarrow> (st, None, None)
           | Some (i, po) \<Rightarrow>
               let info = post.extend po
                     \<lparr>ptype = (if truthy (image_prompt po) then ''image'' else ''text'')\<rparr>
               in (case tool_execute (tool st)
                          (mark_post_call (active_plan_id fl) (Some i) ''ready'' None) of
                     (s', Inr out) \<Rightarrow> (st\<lparr>tool := s'\<rparr>, Some i, Some info)
                   | (s', Inl e) \<Rightarrow>
                       (st\<lparr>tool := mark_ready_directly s' (active_plan_id fl) i\<rparr>,
                        Some i, Some info))))"

subsection \<open>\<open>_generate_plan_text_from_storage\<close> and \<open>_get_plan_text\<close>\<close>

text \<open>The two \<open>while\<close> loops append to the stored lists until they are as long as the posts.\<close>

definition generate_plan_text_from_storage ::
  "'a flow \<Rightarrow> 'w session \<Rightarrow> 'w session \<times> flow_text" where
  "generate_plan_text_from_storage fl st =
     (case map_of (plans (tool st)) (active_plan_id fl) of
        None \<Rightarrow> (st, PlanNotFoundText (active_plan_id fl))
      | Some plan_data \<Rightarrow>
          let n = length (posts plan_data);
              sts = post_statuses plan_data @
                      replicate (n - length (post_statuses plan_data)) ''draft'';
              nts = post_notes plan_data @ replicate (n - length (post_notes plan_data)) '''';
              plan_data' = plan_data\<lparr>post_statuses := sts, post_notes := nts\<rparr>
          in (st\<lparr>tool := (tool st)\<lparr>plans :=
                   AList.update (active_plan_id fl) plan_data' (plans (tool st))\<rparr>\<rparr>,
              StorageText (active_plan_id fl) plan_data'))"

definition get_plan_text :: "'a flow \<Rightarrow> 'w session \<Rightarrow> 'w session \<times> flow_text" where
  "get_plan_text fl st =
     (case tool_execute (tool st) (get_call (active_plan_id fl)) of
        (s', Inr out) \<Rightarrow> (st\<lparr>tool := s'\<rparr>, ToolText out)
      | (s', Inl e) \<Rightarrow> generate_plan_text_from_storage fl (st\<lparr>tool := s'\<rparr>))"

subsection \<open>\<open>_mark_post_posted\<close>\<close>

definition mark_posted_directly :: "store \<Rightarrow> string \<Rightarrow> nat \<Rightarrow> store" where
  "mark_posted_directly s k i =
     (case map_of (plans s) k of
        None \<Rightarrow> s
      | Some plan_data \<Rightarrow>
          let sts = post_statuses plan_data @
                      replicate (Suc i - length (post_statuses plan_data)) ''draft''
          in s\<lparr>plans :=
                 AList.update k (plan_data\<lparr>post_statuses := sts[i := ''posted'']\<rparr>) (plans s)\<rparr>)"

definition mark_post_posted :: "'a flow \<Rightarrow> 'w session \<Rightarrow> 'w session" where
  "mark_post_posted fl st =
     (case current_post_index st of
        None \<Rightarrow> st
      | Some i \<Rightarrow>
          (case tool_execute (tool st)
                  (mark_post_call (active_plan_id fl) (Some i) ''posted'' None) of
             (s', Inr out) \<Rightarrow> st\<lparr>tool := s'\<rparr>
           | (s', Inl e) \<Rightarrow> st\<lparr>tool := mark_posted_directly s' (active_plan_id fl) i\<rparr>))"

subsection \<open>\<open>_execute_post\<close>\<close>

fun join_space :: "string list \<Rightarrow> string" where
  "join_space [] = []"
| "join_space [x] = x"
| "join_space (x # y # ys) = x @ '' '' @ join_space (y # ys)"

text \<open>
  The \<open>mark_post\<close> call of the \<open>except\<close> branch is not inside a \<open>try\<close> of its own: what it
  raises leaves \<open>_execute_post\<close>. So does the \<open>post_info.get\<close> before the \<open>try\<close> when
  \<open>post_info\<close> is \<open>None\<close>.
\<close>

definition execute_post ::
  "('a, 'w) collaborators \<Rightarrow> 'a flow \<Rightarrow> 'w session \<Rightarrow> 'a option \<Rightarrow>
   post_info option \<Rightarrow> 'w session \<times> (exn + string)" where
  "execute_post env fl st executor post_info =
     (case (get_plan_text fl st, post_info) of
        ((st1, plan_status), None) \<Rightarrow>
          (st1, Inl (AttributeError
                  (quoted ''NoneType'' @ '' object has no attribute '' @ quoted ''get'')))
      | ((st1, plan_status), Some info) \<Rightarrow>
          let post_content = (case content info of None \<Rightarrow> [] | Some c \<Rightarrow> c);
              tags = (case hashtags info of None \<Rightarrow> [] | Some h \<Rightarrow> h);
              image = (case image_prompt info of None \<Rightarrow> [] | Some p \<Rightarrow> p);
              hashtag_text = (if tags \<noteq> [] then join_space tags else ''No hashtags'');
              image_text = (if image \<noteq> [] then ''Image prompt: '' @ image
                            else ''No image required'');
              post_prompt = PostPrompt plan_status (current_post_index st1) post_content
                              hashtag_text image_text
          in (case run_agent env executor post_prompt (world st1) of
                (w', Inr post_result) \<Rightarrow>
                  (mark_post_posted fl (st1\<lparr>world := w'\<rparr>), Inr post_result)
              | (w', Inl e) \<Rightarrow>
                  (case tool_execute (tool st1)
                          (mark_post_call (active_plan_id fl) (current_post_index st1)
                             ''failed'' (Some (''Error: '' @ exn_str e))) of
                     (s', Inl e') \<Rightarrow> (st1\<lparr>world := w', tool := s'\<rparr>, Inl e')
                   | (s', Inr out) \<Rightarrow>
                       (st1\<lparr>world := w', tool := s'\<rparr>,
                        Inr (''Error executing post '' @ str_index (current_post_index st1) @
                             '': '' @ exn_str e)))))"

subsection \<open>\<open>_finalize_plan\<close>\<close>

definition completed_prefix :: string where
  "completed_prefix = ''Twitter campaign plan completed:'' @ newline @ newline"

definition finalize_plan ::
  "('a, 'w) collaborators \<Rightarrow> 'a flow \<Rightarrow> 'w session \<Rightarrow> 'w session \<times> string" where
  "finalize_plan env fl st =
     (case get_plan_text fl st of
        (st1, plan_text) \<Rightarrow>
          (case llm_ask env plan_text (world st1) of
             (w', Inr response) \<Rightarrow> (st1\<lparr>world := w'\<rparr>, completed_prefix @ response)
           | (w', Inl e) \<Rightarrow>
               (case run_agent env (primary_agent fl) (SummaryPrompt plan_text) w' of
                  (w'', Inr summary) \<Rightarrow> (st1\<lparr>world := w''\<rparr>, completed_prefix @ summary)
                | (w'', Inl e2) \<Rightarrow>
                    (st1\<lparr>world := w''\<rparr>,
                     ''Twitter campaign plan completed. Error generating summary.''))))"

subsection \<open>\<open>_create_initial_plan\<close>\<close>

text \<open>
  How a function of the flow ends: it returns, it raises an \<open>Exception\<close>, or the process
  ends in \<open>exit()\<close>, whose \<open>SystemExit\<close> no \<open>except Exception\<close> catches.
\<close>

datatype 'r outcome = Return 'r | Raise exn | Exit

text \<open>
  The first tool call named \<open>twitter_planning\<close> whose arguments parse is executed with the
  plan id forced to the flow's; the \<open>exit()\<close> left after it then ends the process. Without
  such a call the default one-post plan is created. What the tool raises leaves the
  function in both cases. The arguments of a call are taken to name a command.
\<close>

definition default_plan_call :: "string \<Rightarrow> string \<Rightarrow> tool_args" where
  "default_plan_call k request =
     \<lparr>command = ''create'', arg_plan_id = Some k,
      arg_title = Some (''Twitter Plan for: '' @ take 50 request @
                        (if length request > 50 then ''...'' else [])),
      arg_posts = Some [\<lparr>content = Some (''Announcing: '' @ take 100 request @
                                          (if length request > 100 then ''...'' else [])),
                         hashtags = Some [''#Announcement'', ''#News''],
                         image_prompt = Some [], scheduled_time = Some []\<rparr>],
      arg_post_index = None, arg_post_status = None, arg_post_notes = None\<rparr>"

fun first_planning_call :: "tool_call list \<Rightarrow> tool_args option" where
  "first_planning_call [] = None"
| "first_planning_call (c # cs) =
     (if function_name c = ''twitter_planning'' then
        (case function_arguments c of
           Unparsable \<Rightarrow> first_planning_call cs
         | Parsed args \<Rightarrow> Some args)
      else first_planning_call cs)"

definition create_initial_plan ::
  "('a, 'w) collaborators \<Rightarrow> 'a flow \<Rightarrow> 'w session \<Rightarrow> string \<Rightarrow> 'w session \<times> unit outcome" where
  "create_initial_plan env fl st request =
     (case llm_ask_tool env request (world st) of
        (w', Inl e) \<Rightarrow> (st\<lparr>world := w'\<rparr>, Raise e)
      | (w', Inr tool_calls) \<Rightarrow>
          (case first_planning_call tool_calls of
             Some args \<Rightarrow>
               (case tool_execute (tool st)
                       (args\<lparr>arg_plan_id := Some (active_plan_id fl)\<rparr>) of
                  (s', Inl e) \<Rightarrow> (st\<lparr>world := w', tool := s'\<rparr>, Raise e)
                | (s', Inr out) \<Rightarrow> (st\<lparr>world := w', tool := s'\<rparr>, Exit))
           | None \<Rightarrow>
               (case tool_execute (tool st) (default_plan_call (active_plan_id fl) request) of
                  (s', Inl e) \<Rightarrow> (st\<lparr>world := w', tool := s'\<rparr>, Raise e)
                | (s', Inr out) \<Rightarrow> (st\<lparr>world := w', tool := s'\<rparr>, Return ()))))"

subsection \<open>The body of the loop of \<open>execute\<close>\<close>

text \<open>
  One pass of the body of \<open>while True\<close>: the run is over (with the state and either the
  exception that leaves the loop or the result text), or the loop goes round again with
  the new state and the text so far.
\<close>

datatype 'w step =
    Stop "'w session" "exn + string"
  | Again "'w session" string

definition loop_body ::
  "('a, 'w) collaborators \<Rightarrow> 'a flow \<Rightarrow> 'w session \<Rightarrow> string \<Rightarrow> 'w step" where
  "loop_body env fl st result =
     (case get_current_post_info fl st of
        (st1, idx, post_info) \<Rightarrow>
          let st2 = st1\<lparr>current_post_index := idx\<rparr>
          in (case idx of
                None \<Rightarrow>
                  (case finalize_plan env fl st2 of
                     (st3, summary) \<Rightarrow> Stop st3 (Inr (result @ summary)))
              | Some i \<Rightarrow>
                  let post_type = (case post_info of None \<Rightarrow> None
                                   | Some info \<Rightarrow> Some (ptype info));
                      executor = get_executor fl post_type
                  in (case execute_post env fl st2 executor post_info of
                        (st3, Inl e) \<Rightarrow> Stop st3 (Inl e)
                      | (st3, Inr post_result) \<Rightarrow>
                          if (case executor of None \<Rightarrow> False
                              | Some a \<Rightarrow> agent_finished env a (world st3))
                          then Stop st3 (Inr (result @ post_result @ newline))
                          else Again st3 (result @ post_result @ newline))))"

text \<open>
  The number of posts of the flow's plan that the scan of \<open>_get_current_post_info\<close> still
  counts as active: it goes down with every pass that goes round again.
\<close>

definition status_at :: "string list \<Rightarrow> nat \<Rightarrow> string" where
  "status_at sts i = (if i \<ge> length sts then ''draft'' else sts ! i)"

definition active_count :: "'a flow \<Rightarrow> 'w session \<Rightarrow> nat" where
  "active_count fl st =
     (case map_of (plans (tool st)) (active_plan_id fl) of
        None \<Rightarrow> 0
      | Some p \<Rightarrow>
          length (filter (\<lambda>i. status_at (post_statuses p) i \<in> set get_active_statuses)
                    [0..<length (posts p)]))"

text \<open>The plan stored under the flow's plan id, if there is one.\<close>

definition cur_plan :: "'a flow \<Rightarrow> 'w session \<Rightarrow> plan option" where
  "cur_plan fl st = map_of (plans (tool st)) (active_plan_id fl)"

text \<open>The status list after \<open>_get_current_post_info\<close> has selected index \<open>i\<close>.\<close>

definition ready_statuses :: "string list \<Rightarrow> nat \<Rightarrow> string list" where
  "ready_statuses sts i =
     (if i < length sts then sts[i := ''ready'']
      else sts @ replicate (i - length sts) ''draft'' @ [''ready''])"


section \<open>\<open>execute\<close>\<close>

text \<open>
  The \<open>while True\<close> loop, with the result text accumulated so far. That it is a total
  function, so that every run of the loop ends, is proved below from the count of active
  posts.
\<close>

function loop ::
  "('a, 'w) collaborators \<Rightarrow> 'a flow \<Rightarrow> 'w session \<Rightarrow> string \<Rightarrow> 'w session \<times> (exn + string)" where
  "loop env fl st result =
     (case loop_body env fl st result of
        Stop st' r \<Rightarrow> (st', r)
      | Again st' result' \<Rightarrow> loop env fl st' result')"
  by pat_completeness auto

text \<open>
  \<open>execute\<close> itself: every \<open>Exception\<close> becomes the text \<open>Execution failed: ...\<close>. An
  empty \<open>input_text\<close> skips the drafting of a plan.
\<close>

definition execute ::
  "('a, 'w) collaborators \<Rightarrow> 'a flow \<Rightarrow> 'w session \<Rightarrow> string \<Rightarrow> 'w session \<times> string outcome" where
  "execute env fl st input_text =
     (if primary_agent fl = None then
        (st, Return (''Execution failed: '' @ exn_str (ValueError ''No primary agent available'')))
      else
        (case (if input_text \<noteq> [] then create_initial_plan env fl st input_text
               else (st, Return ())) of
           (st1, Exit) \<Rightarrow> (st1, Exit)
         | (st1, Raise e) \<Rightarrow> (st1, Return (''Execution failed: '' @ exn_str e))
         | (st1, Return u) \<Rightarrow>
             if input_text \<noteq> [] \<and> map_of (plans (tool st1)) (active_plan_id fl) = None
             then (st1, Return (''Failed to create Twitter plan for: '' @ input_text))
             else (case loop env fl st1 [] of
                     (st2, Inl e) \<Rightarrow> (st2, Return (''Execution failed: '' @ exn_str e))
                   | (st2, Inr result) \<Rightarrow> (st2, Return result))))"


section \<open>Example inputs\<close>

text \<open>Three posts, and a plan \<open>p1\<close> of the first two whose first post has been sent.\<close>

definition demo_post1 :: post where
  "demo_post1 = \<lparr>content = Some ''Hello world'', hashtags = Some [''#hello''],
                  image_prompt = None, scheduled_time = None\<rparr>"

definition demo_post2 :: post where
  "demo_post2 = \<lparr>content = Some ''Second post'', hashtags = None,
                  image_prompt = Some ''a sunrise'', scheduled_time = None\<rparr>"

definition demo_post3 :: post where
  "demo_post3 = \<lparr>content = Some ''Rewritten'', hashtags = None,
                  image_prompt = None, scheduled_time = None\<rparr>"

definition demo_create :: tool_args where
  "demo_create = \<lparr>command = ''create'', arg_plan_id = Some ''p1'', arg_title = Some ''Launch'',
                   arg_posts = Some [demo_post1, demo_post2], arg_post_index = None,
                   arg_post_status = None, arg_post_notes = None\<rparr>"

definition demo_mark :: tool_args where
  "demo_mark = \<lparr>command = ''mark_post'', arg_plan_id = Some ''p1'', arg_title = None,
                 arg_posts = None, arg_post_index = Some 0,
                 arg_post_status = Some ''posted'', arg_post_notes = Some ''sent''\<rparr>"

definition demo_plan :: plan where
  "demo_plan = \<lparr>plan_id = ''p1'', title = ''Launch'', posts = [demo_post1, demo_post2],
                 post_statuses = [''posted'', ''draft''], post_notes = [''sent'', '''']\<rparr>"

definition demo_store :: store where
  "demo_store = \<lparr>plans = [(''p1'', demo_plan)], current_plan_id = Some ''p1''\<rparr>"

text \<open>A flow on the plan \<open>p1\<close> with one agent, which is also the primary one.\<close>

definition demo_flow :: "string flow" where
  "demo_flow = \<lparr>agents = [(''default'', ''agent0'')], primary_agent = Some ''agent0'',
                 executor_keys = [''default''], active_plan_id = ''p1''\<rparr>"

text \<open>
  Two sets of collaborators; their state counts the runs of the agent. In the first the
  agent answers \<open>done\<close> and is in the finished state after every run, in the second
  every run of the agent raises an exception whose text is \<open>boom\<close>.
\<close>

definition finishing_env :: "(string, nat) collaborators" where
  "finishing_env =
     \<lparr>agent_run = (\<lambda>a p w. (Suc w, Inr ''done'')),
      agent_finished = (\<lambda>a w. True),
      llm_ask = (\<lambda>t w. (w, Inr ''summary'')),
      llm_ask_tool = (\<lambda>r w. (w, Inr []))\<rparr>"

definition failing_env :: "(string, nat) collaborators" where
  "failing_env =
     \<lparr>agent_run = (\<lambda>a p w. (Suc w, Inl (AgentError ''boom''))),
      agent_finished = (\<lambda>a w. False),
      llm_ask = (\<lambda>t w. (w, Inr ''summary'')),
      llm_ask_tool = (\<lambda>r w. (w, Inr []))\<rparr>"

text \<open>Sessions: on the plan \<open>p1\<close> with both posts in draft, and on a tool without plans.\<close>

definition fresh_plan :: plan where
  "fresh_plan = \<lparr>plan_id = ''p1'', title = ''Launch'', posts = [demo_post1, demo_post2],
                  post_statuses = [''draft'', ''draft''], post_notes = ['''', '''']\<rparr>"

definition fresh_session :: "nat session" where
  "fresh_session = \<lparr>tool = \<lparr>plans = [(''p1'', fresh_plan)], current_plan_id = Some ''p1''\<rparr>,
                     current_post_index = None, world = 0\<rparr>"

definition empty_session :: "nat session" where
  "empty_session = \<lparr>tool = empty_store, current_post_index = None, world = 0\<rparr>"

text \<open>
  A post without the key \<open>content\<close>, which the schema of the tool does not require, and
  the two \<open>create\<close> calls that store a plan with it: of this post alone, and of this post
  followed by a complete one.
\<close>

definition headless_post :: post where
  "headless_post = \<lparr>content = None, hashtags = Some [''#launch''], image_prompt = None,
                     scheduled_time = None\<rparr>"

definition headless_create :: tool_args where
  "headless_create = \<lparr>command = ''create'', arg_plan_id = Some ''p1'',
                       arg_title = Some ''Launch'', arg_posts = Some [headless_post],
                       arg_post_index = None, arg_post_status = None, arg_post_notes = None\<rparr>"

definition mixed_create :: tool_args where
  "mixed_create = \<lparr>command = ''create'', arg_plan_id = Some ''p1'',
                    arg_title = Some ''Launch'', arg_posts = Some [headless_post, demo_post1],
                    arg_post_index = None, arg_post_status = None, arg_post_notes = None\<rparr>"

definition headless_session :: "nat session" where
  "headless_session =
     \<lparr>tool = \<lparr>plans = [(''p1'', \<lparr>plan_id = ''p1'', title = ''Launch'', posts = [headless_post],
                                  post_statuses = [''draft''], post_notes = ['''']\<rparr>)],
              current_plan_id = Some ''p1''\<rparr>,
      current_post_index = None, world = 0\<rparr>"

definition mixed_session :: "nat session" where
  "mixed_session =
     \<lparr>tool = \<lparr>plans = [(''p1'', \<lparr>plan_id = ''p1'', title = ''Launch'',
                                  posts = [headless_post, demo_post1],
                                  post_statuses = [''draft'', ''draft''],
                                  post_notes = ['''', '''']\<rparr>)],
              current_plan_id = Some ''p1''\<rparr>,
      current_post_index = None, world = 0\<rparr>"


section \<open>Lemmas about the plan store\<close>

text \<open>
  Truthiness, the association list, the loop of \<open>_update_plan\<close> in closed form, and the
  invariant: every command of the tool keeps it, whether the call returns or raises.
\<close>

lemma truthy_simps [simp]: "truthy None = False" "truthy (Some v) = (v \<noteq> [])"
  by (simp_all add: truthy_def)

lemma truthy_the: "truthy x \<Longrightarrow> the x \<noteq> []"
  by (cases x) simp_all

lemma set_update_subset: "set (AList.update k v al) \<subseteq> insert (k, v) (set al)"
  by (induction al) auto

lemma set_delete_subset: "set (AList.delete k al) \<subseteq> set al"
  by (induction al) auto

lemma update_loop_length:
  "update_loop op os on i ps ns nn = Inr (ns', nn') \<Longrightarrow>
   length ns' = length ns + length ps \<and> length nn' = length nn + length ps"
  by (induction ps arbitrary: i ns nn) (auto split: if_splits)

lemma update_loop_eq:
  "length os = length op \<Longrightarrow> length on = length op \<Longrightarrow>
   update_loop op os on i ps ns nn =
     Inr (ns @ map (\<lambda>j. if i + j < length op \<and> ps ! j = op ! (i + j) then os ! (i + j) else ''draft'') [0..<length ps],
          nn @ map (\<lambda>j. if i + j < length op \<and> ps ! j = op ! (i + j) then on ! (i + j) else '''') [0..<length ps])"
  by (induction ps arbitrary: i ns nn) (simp_all add: map_upt_Suc del: upt_Suc)

lemma store_inv_lookup:
  "store_inv s \<Longrightarrow> map_of (plans s) k = Some p \<Longrightarrow> k \<noteq> [] \<and> aligned p"
  by (auto simp: store_inv_def list_all_iff dest: map_of_SomeD)

lemma store_inv_update:
  "store_inv s \<Longrightarrow> k \<noteq> [] \<Longrightarrow> aligned p \<Longrightarrow> store_inv (s\<lparr>plans := AList.update k p (plans s)\<rparr>)"
  using set_update_subset[of k p "plans s"] by (auto simp: store_inv_def list_all_iff)

lemma store_inv_current [simp]: "store_inv (s\<lparr>current_plan_id := c\<rparr>) = store_inv s"
  by (simp add: store_inv_def)

lemma create_plan_inv: "store_inv s \<Longrightarrow> store_inv (fst (create_plan s pid ttl ps))"
  by (auto simp: create_plan_def Let_def truthy_def aligned_def split: option.splits
      intro!: store_inv_update[simplified])

lemma update_plan_inv:
  assumes "store_inv s"
  shows "store_inv (fst (update_plan s pid ttl ps))"
proof (cases "truthy pid")
  case False
  then show ?thesis using assms by (simp add: update_plan_def)
next
  case pid: True
  show ?thesis
  proof (cases "map_of (plans s) (the pid)")
    case None
    then show ?thesis using assms pid by (simp add: update_plan_def)
  next
    case (Some p0)
    define p1 where "p1 = (if truthy ttl then p0\<lparr>title := the ttl\<rparr> else p0)"
    have k: "the pid \<noteq> []" and a0: "aligned p0"
      using store_inv_lookup[OF assms Some] by simp_all
    have a1: "aligned p1" using a0 by (simp add: p1_def aligned_def)
    have inv1: "store_inv (s\<lparr>plans := AList.update (the pid) p1 (plans s)\<rparr>)"
      by (rule store_inv_update[OF assms k a1])
    show ?thesis
    proof (cases "truthy ps")
      case False
      then show ?thesis using pid Some inv1 by (simp add: update_plan_def p1_def Let_def)
    next
      case ps: True
      show ?thesis
      proof (cases "update_loop (posts p1) (post_statuses p1) (post_notes p1) 0 (the ps) [] []")
        case (Inl e)
        then show ?thesis using pid Some ps inv1
          by (simp add: update_plan_def p1_def[symmetric] Let_def)
      next
        case (Inr r)
        obtain ns nn where r: "r = (ns, nn)" by (cases r)
        have "aligned (p1\<lparr>posts := the ps, post_statuses := ns, post_notes := nn\<rparr>)"
          using update_loop_length[OF Inr[unfolded r]] by (simp add: aligned_def)
        from store_inv_update[OF assms k this] show ?thesis
          using pid Some ps Inr r by (simp add: update_plan_def p1_def[symmetric] Let_def)
      qed
    qed
  qed
qed

lemma aligned_marks:
  "aligned p \<Longrightarrow> aligned (p\<lparr>post_statuses := (post_statuses p)[i := x]\<rparr>)"
  "aligned p \<Longrightarrow> aligned (p\<lparr>post_notes := (post_notes p)[i := y]\<rparr>)"
  "aligned p \<Longrightarrow>
     aligned (p\<lparr>post_statuses := (post_statuses p)[i := x], post_notes := (post_notes p)[i := y]\<rparr>)"
  by (simp_all add: aligned_def)

lemma mark_post_inv:
  assumes "store_inv s"
  shows "store_inv (fst (mark_post s pid ix st notes))"
proof (cases "\<not> truthy pid \<and> \<not> truthy (current_plan_id s)")
  case True
  then show ?thesis using assms by (simp add: mark_post_def)
next
  case False
  define k where "k = (if \<not> truthy pid then the (current_plan_id s) else the pid)"
  show ?thesis
  proof (cases "map_of (plans s) k")
    case None
    then show ?thesis using assms False by (simp add: mark_post_def k_def[symmetric] Let_def)
  next
    case (Some p0)
    have k: "k \<noteq> []" and a0: "aligned p0"
      using store_inv_lookup[OF assms Some] by simp_all
    have upd: "\<And>p. aligned p \<Longrightarrow> store_inv (s\<lparr>plans := AList.update k p (plans s)\<rparr>)"
      by (rule store_inv_update[OF assms k])
    show ?thesis
      using assms False Some
      by (cases ix) (auto simp: mark_post_def k_def[symmetric] Let_def a0 aligned_marks intro!: upd)
  qed
qed

lemma delete_plan_inv: "store_inv s \<Longrightarrow> store_inv (fst (delete_plan s pid))"
  using set_delete_subset[of "the pid" "plans s"]
  by (auto simp: delete_plan_def Let_def store_inv_def list_all_iff)

lemma set_active_plan_inv: "store_inv s \<Longrightarrow> store_inv (fst (set_active_plan s pid))"
  by (auto simp: set_active_plan_def split: option.splits)

lemma get_plan_state [simp]: "fst (get_plan s pid) = s"
  by (auto simp: get_plan_def Let_def split: option.splits)

lemma list_plans_state [simp]: "fst (list_plans s) = s"
  by (auto simp: list_plans_def)

lemma tool_execute_inv: "store_inv s \<Longrightarrow> store_inv (fst (tool_execute s a))"
  by (simp add: tool_execute_def create_plan_inv update_plan_inv mark_post_inv
      delete_plan_inv set_active_plan_inv)

lemma execute_all_inv: "store_inv s \<Longrightarrow> store_inv (execute_all s cmds)"
  by (induction cmds arbitrary: s) (simp_all add: tool_execute_inv)

lemma empty_store_inv: "store_inv empty_store"
  by (simp add: store_inv_def empty_store_def)


section \<open>The loop goes round finitely often\<close>

text \<open>
  What the steps of one pass do to the statuses of the flow's plan. Selecting a post
  leaves it ready, whether \<open>mark_post\<close> returned or raised; fetching the plan text changes
  no status; a run of the post from which \<open>_execute_post\<close> returns leaves it posted or
  failed. So a pass that goes round again has one active post less.
\<close>

lemma tool_execute_mark:
  "tool_execute s (mark_post_call k i x n) = mark_post s (Some k) (map_option int i) (Some x) n"
  by (simp add: tool_execute_def mark_post_call_def)

lemma tool_execute_get: "tool_execute s (get_call k) = get_plan s (Some k)"
  by (simp add: tool_execute_def get_call_def)

lemma mark_post_status_effect:
  assumes "k \<noteq> []" and "map_of (plans s) k = Some p0" and "i < length (posts p0)"
    and "i < length (post_statuses p0)" and "x \<in> set valid_statuses"
  shows "\<exists>p'. map_of (plans (fst (mark_post s (Some k) (Some (int i)) (Some x) notes))) k = Some p' \<and>
           posts p' = posts p0 \<and> post_statuses p' = (post_statuses p0)[i := x]"
proof -
  have x: "x \<noteq> []" using assms(5) by (auto simp: valid_statuses_def)
  show ?thesis using assms x
    by (simp add: mark_post_def Let_def AList.update_conv')
qed

lemma mark_post_short_statuses:
  assumes "k \<noteq> []" and "map_of (plans s) k = Some p0" and "i < length (posts p0)"
    and "\<not> i < length (post_statuses p0)" and "x \<in> set valid_statuses"
  shows "fst (mark_post s (Some k) (Some (int i)) (Some x) notes) = s"
proof -
  have x: "x \<noteq> []" using assms(5) by (auto simp: valid_statuses_def)
  show ?thesis using assms x
    by (simp add: mark_post_def Let_def)
qed

lemma first_active_Cons:
  "first_active j (a # ps) sts =
     (if status_at sts j \<in> set get_active_statuses then Some (j, a)
      else first_active (Suc j) ps sts)"
  by (simp add: status_at_def Let_def)

lemma first_active_Some:
  "first_active j ps sts = Some (i, po) \<Longrightarrow>
   j \<le> i \<and> i < j + length ps \<and> po = ps ! (i - j) \<and> status_at sts i \<in> set get_active_statuses"
proof (induction ps arbitrary: j)
  case Nil
  then show ?case by simp
next
  case (Cons a ps)
  show ?case
  proof (cases "status_at sts j \<in> set get_active_statuses")
    case True
    then show ?thesis using Cons.prems by (simp add: first_active_Cons del: first_active.simps)
  next
    case False
    then have "first_active (Suc j) ps sts = Some (i, po)"
      using Cons.prems by (simp add: first_active_Cons del: first_active.simps)
    from Cons.IH[OF this] show ?thesis by (auto simp: Suc_diff_le)
  qed
qed

lemma ready_statuses_length: "i < length (ready_statuses sts i)"
  by (simp add: ready_statuses_def)

lemma status_at_ready_statuses:
  "status_at (ready_statuses sts i) j = (if j = i then ''ready'' else status_at sts j)"
  by (auto simp: ready_statuses_def status_at_def nth_append nth_list_update)


lemma ready_in_valid: "''ready'' \<in> set valid_statuses" "''posted'' \<in> set valid_statuses"
  "''failed'' \<in> set valid_statuses"
  by (simp_all add: valid_statuses_def)

lemma mark_ready_directly_idem:
  assumes "map_of (plans s) k = Some p" and "i < length (post_statuses p)"
    and "post_statuses p ! i = ''ready''"
  shows "map_of (plans (mark_ready_directly s k i)) k = Some p"
proof -
  have "p\<lparr>post_statuses := (post_statuses p)[i := ''ready'']\<rparr> = p"
    using assms(2,3) by (simp add: list_update_same_conv)
  then show ?thesis using assms(1,2)
    by (simp add: mark_ready_directly_def Let_def AList.update_conv')
qed

lemma get_current_post_info_Some:
  assumes "get_current_post_info fl st = (st1, Some i, info)"
  shows "\<exists>p p1. cur_plan fl st = Some p \<and> cur_plan fl st1 = Some p1 \<and> posts p1 = posts p \<and>
           i < length (posts p) \<and> status_at (post_statuses p) i \<in> set get_active_statuses \<and>
           post_statuses p1 = ready_statuses (post_statuses p) i \<and>
           active_plan_id fl \<noteq> [] \<and> info \<noteq> None \<and> world st1 = world st"
proof -
  let ?k = "active_plan_id fl"
  have k: "?k \<noteq> []"
    using assms by (auto simp: get_current_post_info_def split: if_splits)
  obtain p where p: "map_of (plans (tool st)) ?k = Some p"
    using assms k by (cases "map_of (plans (tool st)) ?k") (auto simp: get_current_post_info_def)
  obtain j po where fa: "first_active 0 (posts p) (post_statuses p) = Some (j, po)"
    using assms k p
    by (cases "first_active 0 (posts p) (post_statuses p)") (auto simp: get_current_post_info_def)
  let ?r = "mark_post (tool st) (Some ?k) (Some (int j)) (Some ''ready'') None"
  have unfold: "get_current_post_info fl st =
      (case ?r of
         (s', Inr out) \<Rightarrow> (st\<lparr>tool := s'\<rparr>, Some j,
            Some (post.extend po \<lparr>ptype = (if truthy (image_prompt po) then ''image'' else ''text'')\<rparr>))
       | (s', Inl e) \<Rightarrow> (st\<lparr>tool := mark_ready_directly s' ?k j\<rparr>, Some j,
            Some (post.extend po \<lparr>ptype = (if truthy (image_prompt po) then ''image'' else ''text'')\<rparr>)))"
    using k p fa by (simp add: get_current_post_info_def tool_execute_mark Let_def)
  have ij: "i = j" and info: "info \<noteq> None" and w: "world st1 = world st"
    using assms unfolding unfold by (auto split: prod.splits sum.splits)
  from first_active_Some[OF fa] have jlt: "j < length (posts p)"
    and act: "status_at (post_statuses p) j \<in> set get_active_statuses" by simp_all
  have "\<exists>p1. cur_plan fl st1 = Some p1 \<and> posts p1 = posts p \<and>
          post_statuses p1 = ready_statuses (post_statuses p) j"
  proof (cases "j < length (post_statuses p)")
    case True
    from mark_post_status_effect[OF k p jlt True ready_in_valid(1), of None]
    obtain p' where p': "map_of (plans (fst ?r)) ?k = Some p'" "posts p' = posts p"
      "post_statuses p' = (post_statuses p)[j := ''ready'']" by blast
    have idem: "map_of (plans (mark_ready_directly (fst ?r) ?k j)) ?k = Some p'"
      by (rule mark_ready_directly_idem[OF p'(1)]) (simp_all add: p'(3) True)
    have "cur_plan fl st1 = Some p'"
      using assms p'(1) idem unfolding unfold cur_plan_def
      by (auto split: prod.splits sum.splits)
    then show ?thesis using p' True by (auto simp: ready_statuses_def)
  next
    case False
    from mark_post_short_statuses[OF k p jlt False ready_in_valid(1), of None]
    have same: "fst ?r = tool st" .
    have err: "\<exists>e. snd ?r = Inl e"
      using k p jlt False by (simp add: mark_post_def Let_def valid_statuses_def)
    have "st1 = st\<lparr>tool := mark_ready_directly (tool st) ?k j\<rparr>"
      using assms same err unfolding unfold by (auto split: prod.splits sum.splits)
    then show ?thesis using p False
      by (simp add: cur_plan_def mark_ready_directly_def Let_def AList.update_conv'
          ready_statuses_def)
  qed
  then show ?thesis using p jlt act k info w ij by (auto simp: cur_plan_def)
qed


lemma status_at_append_draft:
  "status_at (sts @ replicate m ''draft'') j = status_at sts j"
  by (auto simp: status_at_def nth_append)

lemma status_at_update:
  "i < length sts \<Longrightarrow> status_at (sts[i := x]) j = (if j = i then x else status_at sts j)"
  by (auto simp: status_at_def)

lemma get_plan_text_effect:
  assumes "cur_plan fl st = Some p"
  shows "\<exists>p'. cur_plan fl (fst (get_plan_text fl st)) = Some p' \<and> posts p' = posts p \<and>
           (\<forall>j. status_at (post_statuses p') j = status_at (post_statuses p) j) \<and>
           length (post_statuses p) \<le> length (post_statuses p') \<and>
           world (fst (get_plan_text fl st)) = world st \<and>
           current_post_index (fst (get_plan_text fl st)) = current_post_index st"
proof -
  obtain r where g: "get_plan (tool st) (Some (active_plan_id fl)) = (tool st, r)"
    using get_plan_state[of "tool st" "Some (active_plan_id fl)"]
    by (cases "get_plan (tool st) (Some (active_plan_id fl))") simp
  show ?thesis
  proof (cases r)
    case (Inr out)
    then show ?thesis using assms g
      by (simp add: get_plan_text_def tool_execute_get)
  next
    case (Inl e)
    then show ?thesis using assms g
      by (simp add: get_plan_text_def tool_execute_get generate_plan_text_from_storage_def
          cur_plan_def Let_def AList.update_conv' status_at_append_draft)
  qed
qed

lemma mark_posted_directly_idem:
  assumes "map_of (plans s) k = Some p" and "i < length (post_statuses p)"
    and "post_statuses p ! i = ''posted''"
  shows "map_of (plans (mark_posted_directly s k i)) k = Some p"
proof -
  have "p\<lparr>post_statuses := (post_statuses p)[i := ''posted'']\<rparr> = p"
    using assms(2,3) by (simp add: list_update_same_conv)
  then show ?thesis using assms(1,2)
    by (simp add: mark_posted_directly_def Let_def AList.update_conv')
qed

lemma mark_post_posted_effect:
  assumes "cur_plan fl st = Some p" and "active_plan_id fl \<noteq> []"
    and "current_post_index st = Some i" and "i < length (posts p)"
    and "i < length (post_statuses p)"
  shows "\<exists>p'. cur_plan fl (mark_post_posted fl st) = Some p' \<and> posts p' = posts p \<and>
           post_statuses p' = (post_statuses p)[i := ''posted'']"
proof -
  let ?k = "active_plan_id fl"
  let ?r = "mark_post (tool st) (Some ?k) (Some (int i)) (Some ''posted'') None"
  from mark_post_status_effect[OF assms(2) assms(1)[unfolded cur_plan_def] assms(4,5)
      ready_in_valid(2), of None]
  obtain p' where p': "map_of (plans (fst ?r)) ?k = Some p'" "posts p' = posts p"
    "post_statuses p' = (post_statuses p)[i := ''posted'']" by blast
  have idem: "map_of (plans (mark_posted_directly (fst ?r) ?k i)) ?k = Some p'"
    by (rule mark_posted_directly_idem[OF p'(1)]) (simp_all add: p'(3) assms(5))
  have "cur_plan fl (mark_post_posted fl st) = Some p'"
    using p'(1) idem assms(3)
    by (auto simp: mark_post_posted_def tool_execute_mark cur_plan_def
        split: prod.splits sum.splits)
  then show ?thesis using p' by blast
qed

lemma execute_post_Inr_effect:
  assumes "execute_post env fl st2 ex (Some pinfo) = (st', Inr r)"
    and "cur_plan fl st2 = Some p1" and "active_plan_id fl \<noteq> []"
    and "current_post_index st2 = Some i" and "i < length (posts p1)"
    and "i < length (post_statuses p1)"
  shows "\<exists>p' x. cur_plan fl st' = Some p' \<and> posts p' = posts p1 \<and>
           x \<notin> set get_active_statuses \<and>
           (\<forall>j. status_at (post_statuses p') j =
                  (if j = i then x else status_at (post_statuses p1) j))"
proof -
  obtain st3 ptxt where g: "get_plan_text fl st2 = (st3, ptxt)"
    by (cases "get_plan_text fl st2")
  from get_plan_text_effect[OF assms(2)] g
  obtain p3 where p3: "cur_plan fl st3 = Some p3" "posts p3 = posts p1"
    "\<forall>j. status_at (post_statuses p3) j = status_at (post_statuses p1) j"
    "length (post_statuses p1) \<le> length (post_statuses p3)"
    "current_post_index st3 = Some i"
    using assms(4) by auto
  have i3: "i < length (posts p3)" "i < length (post_statuses p3)"
    using p3 assms(5,6) by simp_all
  define ppt where "ppt = PostPrompt ptxt (Some i)
      (case content pinfo of None \<Rightarrow> [] | Some c \<Rightarrow> c)
      (if (case hashtags pinfo of None \<Rightarrow> [] | Some h \<Rightarrow> h) \<noteq> []
       then join_space (case hashtags pinfo of None \<Rightarrow> [] | Some h \<Rightarrow> h) else ''No hashtags'')
      (if (case image_prompt pinfo of None \<Rightarrow> [] | Some p \<Rightarrow> p) \<noteq> []
       then ''Image prompt: '' @ (case image_prompt pinfo of None \<Rightarrow> [] | Some p \<Rightarrow> p)
       else ''No image required'')"
  obtain w' out where run: "run_agent env ex ppt (world st3) = (w', out)"
    by (cases "run_agent env ex ppt (world st3)")
  show ?thesis
  proof (cases out)
    case (Inr post_result)
    then have st': "st' = mark_post_posted fl (st3\<lparr>world := w'\<rparr>)"
      using assms(1) g run p3(5)
      by (simp add: execute_post_def Let_def ppt_def[symmetric])
    have c: "cur_plan fl (st3\<lparr>world := w'\<rparr>) = Some p3"
      using p3(1) by (simp add: cur_plan_def)
    from mark_post_posted_effect[OF c assms(3) _ i3] p3(5)
    obtain p' where p': "cur_plan fl st' = Some p'" "posts p' = posts p3"
      "post_statuses p' = (post_statuses p3)[i := ''posted'']"
      unfolding st' by auto
    show ?thesis
      using p' p3 i3
      by (intro exI[of _ p'] exI[of _ "''posted''"])
        (simp add: status_at_update get_active_statuses_def)
  next
    case (Inl e)
    let ?m = "mark_post (tool st3) (Some (active_plan_id fl)) (Some (int i)) (Some ''failed'')
                (Some (''Error: '' @ exn_str e))"
    from Inl have st': "tool st' = fst ?m"
      using assms(1) g run p3(5)
      by (auto simp: execute_post_def Let_def ppt_def[symmetric] tool_execute_mark
          split: prod.splits sum.splits)
    from mark_post_status_effect[OF assms(3) p3(1)[unfolded cur_plan_def] i3
        ready_in_valid(3), of "Some (''Error: '' @ exn_str e)"]
    obtain p' where p': "map_of (plans (fst ?m)) (active_plan_id fl) = Some p'"
      "posts p' = posts p3" "post_statuses p' = (post_statuses p3)[i := ''failed'']"
      by blast
    show ?thesis
      using p' p3 i3 st'
      by (intro exI[of _ p'] exI[of _ "''failed''"])
        (simp add: status_at_update get_active_statuses_def cur_plan_def)
  qed
qed

lemma active_count_decreases:
  assumes "i < n" and "status_at sts i \<in> A" and "x \<notin> A"
    and "\<forall>j. status_at sts' j = (if j = i then x else status_at sts j)"
  shows "length (filter (\<lambda>j. status_at sts' j \<in> A) [0..<n]) <
         length (filter (\<lambda>j. status_at sts j \<in> A) [0..<n])"
proof -
  let ?P = "\<lambda>j. status_at sts j \<in> A" and ?P' = "\<lambda>j. status_at sts' j \<in> A"
  have "filter ?P' [0..<n] = filter ?P' (filter ?P [0..<n])"
    using assms(3,4) by (auto intro: filter_cong)
  moreover have "i \<in> set (filter ?P [0..<n])" using assms(1,2) by simp
  moreover have "\<not> ?P' i" using assms(3,4) by simp
  ultimately show ?thesis
    using length_filter_less[of i "filter ?P [0..<n]" ?P'] by simp
qed

lemma loop_body_Again_decreases:
  assumes "loop_body env fl st result = Again st' result'"
  shows "active_count fl st' < active_count fl st"
proof -
  obtain st1 idx info where g: "get_current_post_info fl st = (st1, idx, info)"
    by (cases "get_current_post_info fl st")
  obtain i where idx: "idx = Some i"
    using assms g by (cases idx) (auto simp: loop_body_def split: prod.splits)
  from get_current_post_info_Some[OF g[unfolded idx]]
  obtain p p1 pinfo where p: "cur_plan fl st = Some p" "cur_plan fl st1 = Some p1"
    "posts p1 = posts p" "i < length (posts p)"
    "status_at (post_statuses p) i \<in> set get_active_statuses"
    "post_statuses p1 = ready_statuses (post_statuses p) i"
    "active_plan_id fl \<noteq> []" "info = Some pinfo"
    by auto
  let ?st2 = "st1\<lparr>current_post_index := Some i\<rparr>"
  obtain r where ex: "execute_post env fl ?st2 (get_executor fl (Some (ptype pinfo))) (Some pinfo) =
      (st', Inr r)"
    using assms g idx p(8)
    by (auto simp: loop_body_def Let_def split: prod.splits sum.splits if_splits)
  have c2: "cur_plan fl ?st2 = Some p1" using p(2) by (simp add: cur_plan_def)
  from execute_post_Inr_effect[OF ex c2 p(7), of i]
  obtain p' x where p': "cur_plan fl st' = Some p'" "posts p' = posts p1"
    "x \<notin> set get_active_statuses"
    "\<forall>j. status_at (post_statuses p') j =
           (if j = i then x else status_at (post_statuses p1) j)"
    using p(3,4,6) ready_statuses_length[of i "post_statuses p"] by auto
  have "\<forall>j. status_at (post_statuses p') j =
           (if j = i then x else status_at (post_statuses p) j)"
    using p'(4) p(6) by (simp add: status_at_ready_statuses)
  from active_count_decreases[OF p(4,5) p'(3) this]
  show ?thesis
    using p(1,3) p'(1,2) by (simp add: active_count_def cur_plan_def)
qed

text \<open>So the loop is a total function.\<close>

termination loop
  by (relation "measure (\<lambda>(env, fl, st, result). active_count fl st)")
    (simp_all add: loop_body_Again_decreases)

declare loop.simps [simp del]


section \<open>Properties of the plan store\<close>

text \<open>The example store is what the two example calls make of the empty store.\<close>

lemma demo_store_eq: "execute_all empty_store [demo_create, demo_mark] = demo_store"
  by (simp add: tool_execute_def create_plan_def mark_post_def demo_create_def demo_mark_def
      demo_store_def demo_plan_def empty_store_def Let_def valid_statuses_def)

lemma demo_lookup: "map_of (plans demo_store) ''p1'' = Some demo_plan"
  by (simp add: demo_store_def)

text \<open>
  Claim C6. Starting from the empty store, after any sequence of tool calls (any commands
  with any arguments, succeeding or raising), every plan in the store has as many statuses
  as posts and as many notes as posts.
\<close>

theorem store_lists_aligned:
  "list_all (\<lambda>(k, p). length (post_statuses p) = length (posts p) \<and>
                       length (posts p) = length (post_notes p))
     (plans (execute_all empty_store cmds))"
  using execute_all_inv[OF empty_store_inv, of cmds]
  by (auto simp: store_inv_def aligned_def list_all_iff)

text \<open>
  Claim C5. In every store reached from the empty one by tool calls, \<open>create\<close> with an id
  that is present raises the already-exists error, whatever title and posts are passed, and
  the tool object after the call is the one before it: the plan's title, posts, statuses
  and notes and the active pointer are untouched.
\<close>

theorem create_duplicate_fails:
  assumes "s = execute_all empty_store cmds" and "map_of (plans s) pid = Some p"
  shows "create_plan s (Some pid) ttl ps = (s, Inl (ToolError (AlreadyExists pid)))"
proof -
  have "store_inv s" using assms(1) execute_all_inv[OF empty_store_inv] by simp
  then have "pid \<noteq> []" using assms(2) store_inv_lookup by blast
  then show ?thesis using assms(2) by (simp add: create_plan_def truthy_def)
qed

text \<open>Claim C5, at the example store: a second \<open>create\<close> of \<open>p1\<close>.\<close>

theorem create_duplicate_fails_witness:
  "map_of (plans demo_store) ''p1'' = Some demo_plan \<and>
   create_plan demo_store (Some ''p1'') (Some ''Again'') None =
     (demo_store, Inl (ToolError (AlreadyExists ''p1'')))"
proof -
  have h: "map_of (plans demo_store) ''p1'' = Some demo_plan"
    by (simp add: demo_store_def)
  show ?thesis
    using h create_duplicate_fails[OF demo_store_eq[symmetric] h, of "Some ''Again''" None]
    by simp
qed

text \<open>
  Claim C1. For a stored plan whose three lists have one length, \<open>update\<close> with a posts
  list \<open>ps\<close> leaves a plan in which, at every index \<open>i\<close> of \<open>ps\<close>, the status and the
  note are the old ones when \<open>i\<close> is an index of the old posts and \<open>ps ! i\<close> equals the old
  post there, and \<open>draft\<close> and the empty string otherwise. A non-empty \<open>ps\<close> becomes the
  stored posts list, with statuses and notes of its length.
\<close>

theorem update_preserves_iff_identical:
  assumes "pid \<noteq> []" and "map_of (plans s) pid = Some p"
    and "length (post_statuses p) = length (posts p)"
    and "length (post_notes p) = length (posts p)"
  shows "\<exists>p'. map_of (plans (fst (update_plan s (Some pid) ttl (Some ps)))) pid = Some p' \<and>
           (\<forall>i < length ps.
              post_statuses p' ! i =
                (if i < length (posts p) \<and> ps ! i = posts p ! i then post_statuses p ! i
                 else ''draft'') \<and>
              post_notes p' ! i =
                (if i < length (posts p) \<and> ps ! i = posts p ! i then post_notes p ! i
                 else [])) \<and>
           (ps \<noteq> [] \<longrightarrow> posts p' = ps \<and> length (post_statuses p') = length ps \<and>
              length (post_notes p') = length ps)"
proof (cases "ps = []")
  case True
  then show ?thesis using assms(1,2)
    by (simp add: update_plan_def truthy_def Let_def AList.update_conv')
next
  case False
  define p1 where "p1 = (if truthy ttl then p\<lparr>title := the ttl\<rparr> else p)"
  have p1: "posts p1 = posts p" "post_statuses p1 = post_statuses p" "post_notes p1 = post_notes p"
    by (simp_all add: p1_def)
  note loop = update_loop_eq[of "post_statuses p" "posts p" "post_notes p" 0 ps "[]" "[]",
      OF assms(3,4)]
  show ?thesis using assms(1,2) False
    by (simp add: update_plan_def truthy_def Let_def p1_def[symmetric] p1 loop
        AList.update_conv' del: upt_Suc)
qed

text \<open>
  Claim C1, at the example store: the first post is resent unchanged and keeps \<open>posted\<close> and
  its note, the second is rewritten and is reset.
\<close>

theorem update_preserves_iff_identical_witness:
  "\<exists>p'. map_of (plans (fst (update_plan demo_store (Some ''p1'') None
                               (Some [demo_post1, demo_post3])))) ''p1'' = Some p' \<and>
         post_statuses p' = [''posted'', ''draft''] \<and> post_notes p' = [''sent'', ''''] \<and>
         posts p' = [demo_post1, demo_post3]"
proof -
  have h: "map_of (plans demo_store) ''p1'' = Some demo_plan"
    by (simp add: demo_store_def)
  have neq: "demo_post3 \<noteq> demo_post2" by (simp add: demo_post3_def demo_post2_def)
  from update_preserves_iff_identical[OF _ h, of None "[demo_post1, demo_post3]"]
  obtain p' where p': "map_of (plans (fst (update_plan demo_store (Some ''p1'') None
                               (Some [demo_post1, demo_post3])))) ''p1'' = Some p'"
    and ix: "\<forall>i<2. post_statuses p' ! i =
                (if i < 2 \<and> [demo_post1, demo_post3] ! i = [demo_post1, demo_post2] ! i
                 then [''posted'', ''draft''] ! i else ''draft'') \<and>
              post_notes p' ! i =
                (if i < 2 \<and> [demo_post1, demo_post3] ! i = [demo_post1, demo_post2] ! i
                 then [''sent'', ''''] ! i else [])"
    and len: "posts p' = [demo_post1, demo_post3]" "length (post_statuses p') = 2"
      "length (post_notes p') = 2"
    by (auto simp: demo_plan_def)
  have "post_statuses p' ! 0 = ''posted''" "post_notes p' ! 0 = ''sent''"
    using ix[rule_format, of 0] by simp_all
  moreover have "post_statuses p' ! 1 = ''draft''" "post_notes p' ! 1 = []"
    using ix[rule_format, of 1] neq by simp_all
  ultimately have "\<forall>i<2. post_statuses p' ! i = [''posted'', ''draft''] ! i \<and>
                         post_notes p' ! i = [''sent'', []] ! i"
    by (simp add: numeral_2_eq_2 less_Suc_eq)
  with len have "post_statuses p' = [''posted'', ''draft'']" "post_notes p' = [''sent'', '''']"
    by (simp_all add: list_eq_iff_nth_eq)
  with p' len(1) show ?thesis by blast
qed

text \<open>
  Claim C9 as stated fails for the empty title: \<open>if title:\<close> skips the assignment, so an
  \<open>update\<close> of the example plan with the title \<open>""\<close> leaves the title \<open>Launch\<close>.
\<close>

theorem update_empty_title_counterexample:
  "map_of (plans demo_store) ''p1'' = Some demo_plan \<and> title demo_plan = ''Launch'' \<and>
   map_option title
     (map_of (plans (fst (update_plan demo_store (Some ''p1'') (Some '''') None))) ''p1'') =
     Some ''Launch''"
  by (simp add: demo_store_def demo_plan_def update_plan_def Let_def)

text \<open>
  Claim C9, amended. For a stored plan, \<open>update\<close> with a title \<open>t\<close> leaves the stored
  title equal to \<open>t\<close> when \<open>t\<close> is not empty, whatever posts argument comes with it (also
  when the posts loop raises), and leaves the title as it was when \<open>t\<close> is empty.
\<close>

theorem update_title_replaced_when_nonempty:
  assumes "pid \<noteq> []" and "map_of (plans s) pid = Some p"
  shows "\<exists>p'. map_of (plans (fst (update_plan s (Some pid) (Some t) ps))) pid = Some p' \<and>
           title p' = (if t = [] then title p else t)"
  using assms
  by (auto simp: update_plan_def truthy_def Let_def AList.update_conv'
      split: sum.splits option.splits)

text \<open>Claim C9, amended, at the example store.\<close>

theorem update_title_replaced_when_nonempty_witness:
  "map_of (plans demo_store) ''p1'' = Some demo_plan \<and>
   (\<exists>p'. map_of (plans (fst (update_plan demo_store (Some ''p1'') (Some ''Relaunch'') None)))
            ''p1'' = Some p' \<and> title p' = ''Relaunch'')"
  using demo_lookup
    update_title_replaced_when_nonempty[OF _ demo_lookup, of "''Relaunch''" None]
  by simp

text \<open>
  Claim C8. \<open>delete\<close> of a stored plan succeeds and removes it. When the plan was the active
  one the pointer is cleared and a following \<open>get\<close> without an id raises the no-active-plan
  error; otherwise the pointer is what it was.
\<close>

theorem delete_clears_active_pointer:
  assumes "pid \<noteq> []" and "map_of (plans s) pid = Some p"
  shows "snd (delete_plan s (Some pid)) = Inr (PlanDeleted pid) \<and>
         map_of (plans (fst (delete_plan s (Some pid)))) pid = None \<and>
         (if current_plan_id s = Some pid
          then current_plan_id (fst (delete_plan s (Some pid))) = None \<and>
               get_plan (fst (delete_plan s (Some pid))) None =
                 (fst (delete_plan s (Some pid)), Inl (ToolError NoActivePlan))
          else current_plan_id (fst (delete_plan s (Some pid))) = current_plan_id s)"
  using assms
  by (simp add: delete_plan_def get_plan_def truthy_def Let_def AList.delete_conv')

text \<open>Claim C8, at the example store, whose active plan is \<open>p1\<close>.\<close>

theorem delete_clears_active_pointer_witness:
  "current_plan_id demo_store = Some ''p1'' \<and>
   map_of (plans (fst (delete_plan demo_store (Some ''p1'')))) ''p1'' = None \<and>
   current_plan_id (fst (delete_plan demo_store (Some ''p1''))) = None \<and>
   get_plan (fst (delete_plan demo_store (Some ''p1''))) None =
     (fst (delete_plan demo_store (Some ''p1'')), Inl (ToolError NoActivePlan))"
proof -
  have c: "current_plan_id demo_store = Some ''p1''" by (simp add: demo_store_def)
  show ?thesis
    using c delete_clears_active_pointer[OF _ demo_lookup] by simp
qed

text \<open>
  Claim C10. Whatever \<open>mark_post\<close> is called with, every stored plan is still stored
  afterwards; its notes are unchanged when \<open>post_notes\<close> is absent or empty, its statuses
  are unchanged when \<open>post_status\<close> is absent or empty, and a note that was not empty is
  not empty afterwards.
\<close>

theorem mark_post_notes_frame:
  assumes "map_of (plans s) k = Some p"
  shows "\<exists>p'. map_of (plans (fst (mark_post s pid ix st notes))) k = Some p' \<and>
           (notes = None \<or> notes = Some [] \<longrightarrow> post_notes p' = post_notes p) \<and>
           (st = None \<or> st = Some [] \<longrightarrow> post_statuses p' = post_statuses p) \<and>
           length (post_notes p') = length (post_notes p) \<and>
           (\<forall>j < length (post_notes p). post_notes p ! j \<noteq> [] \<longrightarrow> post_notes p' ! j \<noteq> [])"
proof (cases "\<not> truthy pid \<and> \<not> truthy (current_plan_id s)")
  case True
  then show ?thesis using assms by (simp add: mark_post_def)
next
  case False
  define k' where "k' = (if \<not> truthy pid then the (current_plan_id s) else the pid)"
  show ?thesis
  proof (cases "map_of (plans s) k'")
    case None
    then show ?thesis using assms False by (simp add: mark_post_def k'_def[symmetric] Let_def)
  next
    case (Some p0)
    show ?thesis
    proof (cases "k' = k")
      case True
      then have "p0 = p" using Some assms by simp
      then show ?thesis
        using assms False Some True
        by (cases ix)
          (auto simp: mark_post_def k'_def[symmetric] Let_def AList.update_conv'
            nth_list_update dest: truthy_the)
    next
      case neq: False
      then show ?thesis
        using assms False Some
        by (cases ix)
          (auto simp: mark_post_def k'_def[symmetric] Let_def AList.update_conv')
    qed
  qed
qed

text \<open>Claim C10, at the example store: an empty note does not erase \<open>sent\<close>.\<close>

theorem mark_post_notes_frame_witness:
  "\<exists>p'. map_of (plans (fst (mark_post demo_store (Some ''p1'') (Some 0) (Some ''failed'')
                               (Some '''')))) ''p1'' = Some p' \<and>
         post_notes p' = [''sent'', '''']"
  using mark_post_notes_frame[OF demo_lookup, of "Some ''p1''" "Some 0" "Some ''failed''" "Some ''''"]
  by (auto simp: demo_plan_def)



section \<open>Properties of the flow\<close>

text \<open>The definitions that evaluate a run of the flow on an example.\<close>

lemmas flow_defs = execute_def loop.simps str_nat.simps loop_body_def get_current_post_info_def get_active_statuses_def
  tool_execute_mark tool_execute_get mark_post_def get_plan_def Let_def valid_statuses_def
  format_plan_def post.defs execute_post_def get_plan_text_def get_executor_def run_agent_def
  mark_post_posted_def mark_ready_directly_def mark_posted_directly_def
  generate_plan_text_from_storage_def finalize_plan_def cur_plan_def

lemmas demo_defs = demo_flow_def fresh_session_def fresh_plan_def demo_post1_def demo_post2_def
  finishing_env_def failing_env_def headless_post_def headless_session_def mixed_session_def
  empty_session_def empty_store_def

text \<open>The two plans with a post without \<open>content\<close> are stored by \<open>create\<close>, which
  raises only afterwards, in the rendering.\<close>

lemma headless_store_created: "execute_all empty_store [headless_create] = tool headless_session"
  by (simp add: headless_create_def tool_execute_def create_plan_def headless_session_def
      headless_post_def empty_store_def Let_def)

lemma mixed_store_created: "execute_all empty_store [mixed_create] = tool mixed_session"
  by (simp add: mixed_create_def tool_execute_def create_plan_def mixed_session_def
      headless_post_def empty_store_def Let_def)

text \<open>The language model has no part in the run of a post.\<close>

lemma run_agent_llm_ask: "run_agent (env\<lparr>llm_ask := f\<rparr>) ag = run_agent env ag"
  by (simp add: run_agent_def fun_eq_iff split: option.splits)

lemma execute_post_llm_ask [simp]:
  "execute_post (env\<lparr>llm_ask := f\<rparr>) fl st ex info = execute_post env fl st ex info"
  unfolding execute_post_def run_agent_llm_ask by (rule refl)

text \<open>
  Claim C3 as stated fails: with an agent that is finished after its first run, \<open>execute\<close>
  on the plan of two draft posts returns \<open>done\<close> and a newline, with the second post still
  in draft after one run of the agent. The text that finalizing would produce in that
  state, the completion line with the summary, is not part of what is returned.
\<close>

theorem executor_finished_counterexample:
  "snd (execute finishing_env demo_flow fresh_session []) = Return (''done'' @ newline) \<and>
   map_option post_statuses (cur_plan demo_flow (fst (execute finishing_env demo_flow fresh_session []))) =
     Some [''posted'', ''draft''] \<and>
   world (fst (execute finishing_env demo_flow fresh_session [])) = 1 \<and>
   snd (finalize_plan finishing_env demo_flow (fst (execute finishing_env demo_flow fresh_session []))) =
     completed_prefix @ ''summary''"
  by (simp add: flow_defs demo_defs newline_def completed_prefix_def)

text \<open>
  Claim C3, amended. Let a pass of the loop select a post, let its executor return from
  the post (the post's output, or the message of the executor's failure once the post is
  marked failed) and let the executor then be in the finished state. Then the loop stops
  at once with the text so far, the post's result and a newline, in the state that the
  post left: no plan text is rendered and no summary is asked for, so whatever stands in
  for the language model, the result is the same. In the first pass, \<open>execute\<close> with an
  empty request returns just the post's result and a newline.
\<close>

theorem loop_stops_without_finalizing:
  assumes "get_current_post_info fl st = (st1, Some i, Some info)"
    and "get_executor fl (Some (ptype info)) = Some a"
    and "execute_post env fl (st1\<lparr>current_post_index := Some i\<rparr>) (Some a) (Some info) =
           (st2, Inr post_result)"
    and "agent_finished env a (world st2)"
    and "primary_agent fl \<noteq> None"
  shows "loop (env\<lparr>llm_ask := f\<rparr>) fl st result = (st2, Inr (result @ post_result @ newline)) \<and>
         execute (env\<lparr>llm_ask := f\<rparr>) fl st [] = (st2, Return (post_result @ newline))"
proof -
  have body: "\<And>r. loop_body (env\<lparr>llm_ask := f\<rparr>) fl st r = Stop st2 (Inr (r @ post_result @ newline))"
    using assms(1-4) by (simp add: loop_body_def)
  have l: "\<And>r. loop (env\<lparr>llm_ask := f\<rparr>) fl st r = (st2, Inr (r @ post_result @ newline))"
    by (subst loop.simps) (simp add: body)
  show ?thesis using assms(5) by (auto simp: l execute_def)
qed

text \<open>
  Claim C3, amended, at the example: the agent finishes after the first of two draft
  posts; the language model is one that would raise.
\<close>

theorem loop_stops_without_finalizing_witness:
  "agent_finished finishing_env ''agent0'' 1 \<and>
   execute (finishing_env\<lparr>llm_ask := (\<lambda>t w. (w, Inl (AgentError ''offline'')))\<rparr>)
       demo_flow fresh_session [] =
     (\<lparr>tool = \<lparr>plans = [(''p1'', fresh_plan\<lparr>post_statuses := [''posted'', ''draft'']\<rparr>)],
                current_plan_id = Some ''p1''\<rparr>,
       current_post_index = Some 0, world = 1\<rparr>,
      Return (''done'' @ newline))"
proof -
  let ?st1 = "fresh_session\<lparr>tool := \<lparr>plans = [(''p1'', fresh_plan\<lparr>post_statuses := [''ready'', ''draft'']\<rparr>)],
                current_plan_id = Some ''p1''\<rparr>\<rparr>"
  let ?info = "post.extend demo_post1 \<lparr>ptype = ''text''\<rparr>"
  let ?st2 = "\<lparr>tool = \<lparr>plans = [(''p1'', fresh_plan\<lparr>post_statuses := [''posted'', ''draft'']\<rparr>)],
                current_plan_id = Some ''p1''\<rparr>,
       current_post_index = Some 0, world = 1::nat\<rparr>"
  have h1: "get_current_post_info demo_flow fresh_session = (?st1, Some 0, Some ?info)"
    by (simp add: flow_defs demo_defs)
  have h2: "get_executor demo_flow (Some (ptype ?info)) = Some ''agent0''"
    by (simp add: flow_defs demo_defs)
  have h3: "execute_post finishing_env demo_flow (?st1\<lparr>current_post_index := Some 0\<rparr>)
              (Some ''agent0'') (Some ?info) = (?st2, Inr ''done'')"
    by (simp add: flow_defs demo_defs)
  have h4: "agent_finished finishing_env ''agent0'' (world ?st2)"
    by (simp add: finishing_env_def)
  have h5: "primary_agent demo_flow \<noteq> None" by (simp add: demo_flow_def)
  show ?thesis
    using h4 loop_stops_without_finalizing[OF h1 h2 h3 h4 h5,
        of "\<lambda>t w. (w, Inl (AgentError ''offline''))" "[]"]
    by simp
qed

text \<open>
  Claim C4 as stated fails: on a tool without plans \<open>execute\<close> with the empty request
  returns the completion line with the summary, the tool still has no plan and the agent
  has not run.
\<close>

theorem empty_request_counterexample:
  "map_of (plans (tool empty_session)) (active_plan_id demo_flow) = None \<and>
   plans (tool (fst (execute finishing_env demo_flow empty_session []))) = [] \<and>
   world (fst (execute finishing_env demo_flow empty_session [])) = 0 \<and>
   snd (execute finishing_env demo_flow empty_session []) =
     Return (completed_prefix @ ''summary'')"
  by (simp add: flow_defs demo_defs completed_prefix_def)

text \<open>
  Claim C4, amended. With a primary agent and no plan stored under the flow's plan id,
  \<open>execute\<close> with the empty request leaves the tool object as it is, creating no plan,
  and returns what \<open>_finalize_plan\<close> makes of that state; for a non-empty plan id the plan
  text that is summarised is the not-found text.
\<close>

theorem empty_request_without_plan:
  assumes "primary_agent fl \<noteq> None"
    and "map_of (plans (tool st)) (active_plan_id fl) = None"
  shows "tool (fst (execute env fl st [])) = tool st \<and>
         execute env fl st [] =
           (fst (finalize_plan env fl (st\<lparr>current_post_index := None\<rparr>)),
            Return (snd (finalize_plan env fl (st\<lparr>current_post_index := None\<rparr>)))) \<and>
         (active_plan_id fl \<noteq> [] \<longrightarrow>
            get_plan_text fl (st\<lparr>current_post_index := None\<rparr>) =
              (st\<lparr>current_post_index := None\<rparr>, PlanNotFoundText (active_plan_id fl)))"
proof -
  let ?st = "st\<lparr>current_post_index := None\<rparr>"
  have g: "get_current_post_info fl st = (st, None, None)"
    using assms(2) by (simp add: get_current_post_info_def)
  have body: "loop_body env fl st [] =
      Stop (fst (finalize_plan env fl ?st)) (Inr (snd (finalize_plan env fl ?st)))"
    by (simp add: loop_body_def g split: prod.splits)
  have l: "loop env fl st [] = (fst (finalize_plan env fl ?st), Inr (snd (finalize_plan env fl ?st)))"
    by (subst loop.simps) (simp add: body)
  have t: "tool (fst (get_plan_text fl ?st)) = tool st"
    using assms(2)
    by (auto simp: get_plan_text_def tool_execute_get generate_plan_text_from_storage_def
        split: prod.splits sum.splits option.splits dest: arg_cong[where f=fst])
  have "tool (fst (finalize_plan env fl ?st)) = tool st"
    using t by (auto simp: finalize_plan_def split: prod.splits sum.splits)
  moreover have "active_plan_id fl \<noteq> [] \<Longrightarrow>
      get_plan_text fl ?st = (?st, PlanNotFoundText (active_plan_id fl))"
    using assms(2)
    by (simp add: get_plan_text_def tool_execute_get get_plan_def
        generate_plan_text_from_storage_def)
  ultimately show ?thesis using assms(1) by (auto simp: execute_def l)
qed

text \<open>Claim C4, amended, at the example flow on a tool without plans.\<close>

theorem empty_request_without_plan_witness:
  "primary_agent demo_flow \<noteq> None \<and>
   map_of (plans (tool empty_session)) (active_plan_id demo_flow) = None \<and>
   tool (fst (execute finishing_env demo_flow empty_session [])) = tool empty_session \<and>
   get_plan_text demo_flow (empty_session\<lparr>current_post_index := None\<rparr>) =
     (empty_session\<lparr>current_post_index := None\<rparr>, PlanNotFoundText ''p1'')"
proof -
  have h1: "primary_agent demo_flow \<noteq> None" by (simp add: demo_flow_def)
  have h2: "map_of (plans (tool empty_session)) (active_plan_id demo_flow) = None"
    by (simp add: empty_session_def empty_store_def)
  have k: "active_plan_id demo_flow = ''p1''" by (simp add: demo_flow_def)
  note t = empty_request_without_plan[OF h1 h2, of finishing_env]
  have a: "tool (fst (execute finishing_env demo_flow empty_session [])) = tool empty_session"
    using t by (rule conjunct1)
  have b: "get_plan_text demo_flow (empty_session\<lparr>current_post_index := None\<rparr>) =
      (empty_session\<lparr>current_post_index := None\<rparr>, PlanNotFoundText (active_plan_id demo_flow))"
    using t k by simp
  show ?thesis using h1 h2 a b k by simp
qed

text \<open>
  What the loop does with a failure of the executor on a plan whose lists have one length
  and whose posts all have \<open>content\<close>, so that the tool's calls return: the selected
  post is marked failed with the note \<open>Error: \<close> and the text of the exception, the
  message of the failure is appended to the result, and unless the executor is in the
  finished state the loop goes round again.
\<close>

lemma format_plan_complete:
  "complete_posts p \<Longrightarrow> format_plan p = Inr (Formatted p)"
  by (auto simp: format_plan_def complete_posts_def list_ex_iff list_all_iff dest: set_zip_leftD)

lemma complete_posts_marks [simp]:
  "complete_posts (p\<lparr>post_statuses := x\<rparr>) = complete_posts p"
  "complete_posts (p\<lparr>post_notes := y\<rparr>) = complete_posts p"
  by (simp_all add: complete_posts_def)

lemma mark_post_succeeds:
  assumes "k \<noteq> []" and "map_of (plans s) k = Some p" and "i < length (posts p)"
    and "aligned p" and "complete_posts p" and "x \<in> set valid_statuses"
  shows "mark_post s (Some k) (Some (int i)) (Some x) notes =
           (let p' = p\<lparr>post_statuses := (post_statuses p)[i := x],
                        post_notes := (if truthy notes then (post_notes p)[i := the notes]
                                       else post_notes p)\<rparr>
            in (s\<lparr>plans := AList.update k p' (plans s)\<rparr>,
                Inr (PostUpdated (int i) k (Formatted p'))))"
proof -
  have x: "x \<noteq> []" using assms(6) by (auto simp: valid_statuses_def)
  show ?thesis using assms x
    by (simp add: mark_post_def Let_def aligned_def format_plan_complete)
qed

lemma ptype_extend [simp]: "ptype (post.extend po \<lparr>ptype = t\<rparr>) = t"
  by (simp add: post.defs)

lemma failed_item_loop_continues:
  assumes "cur_plan fl st = Some p" and "active_plan_id fl \<noteq> []"
    and "aligned p" and "complete_posts p"
    and "first_active 0 (posts p) (post_statuses p) = Some (k, po)"
    and "get_executor fl (Some (if truthy (image_prompt po) then ''image'' else ''text'')) = Some a"
    and "\<forall>pr. agent_run env a pr (world st) = (w', Inl e)"
    and "\<not> agent_finished env a w'"
  shows "\<exists>st'. loop_body env fl st result =
             Again st' (result @ ''Error executing post '' @ str_nat k @ '': '' @ exn_str e @ newline) \<and>
           cur_plan fl st' =
             Some (p\<lparr>post_statuses := (post_statuses p)[k := ''failed''],
                     post_notes := (post_notes p)[k := ''Error: '' @ exn_str e]\<rparr>) \<and>
           world st' = w'"
proof -
  let ?k = "active_plan_id fl"
  from first_active_Some[OF assms(5)] have klt: "k < length (posts p)" by simp
  let ?p1 = "p\<lparr>post_statuses := (post_statuses p)[k := ''ready'']\<rparr>"
  let ?s1 = "(tool st)\<lparr>plans := AList.update ?k ?p1 (plans (tool st))\<rparr>"
  define ty where "ty = (if truthy (image_prompt po) then ''image'' else ''text'')"
  let ?info = "post.extend po \<lparr>ptype = ty\<rparr>"
  have ex: "get_executor fl (Some ty) = Some a" using assms(6) by (simp add: ty_def)
  have m1: "mark_post (tool st) (Some ?k) (Some (int k)) (Some ''ready'') None =
      (?s1, Inr (PostUpdated (int k) ?k (Formatted ?p1)))"
    using mark_post_succeeds[OF assms(2) assms(1)[unfolded cur_plan_def] klt assms(3,4)
        ready_in_valid(1), of None]
    by (simp add: Let_def)
  have g: "get_current_post_info fl st = (st\<lparr>tool := ?s1\<rparr>, Some k, Some ?info)"
    using assms(1,2,5) m1
    by (simp add: get_current_post_info_def cur_plan_def tool_execute_mark Let_def
        ty_def[symmetric])
  let ?st2 = "st\<lparr>tool := ?s1, current_post_index := Some k\<rparr>"
  have l1: "map_of (plans ?s1) ?k = Some ?p1" by (simp add: AList.update_conv')
  have a1: "aligned ?p1" "complete_posts ?p1" "k < length (posts ?p1)"
    using assms(3,4) klt by (simp_all add: aligned_def)
  have gt: "get_plan_text fl ?st2 = (?st2, ToolText (PlanDetails (Formatted ?p1)))"
    using assms(2) l1 format_plan_complete[OF a1(2)]
    by (simp add: get_plan_text_def tool_execute_get get_plan_def)
  let ?note = "''Error: '' @ exn_str e"
  let ?p2 = "p\<lparr>post_statuses := (post_statuses p)[k := ''failed''],
               post_notes := (post_notes p)[k := ?note]\<rparr>"
  let ?s2 = "(tool st)\<lparr>plans := AList.update ?k ?p2 (plans (tool st))\<rparr>"
  have m2: "mark_post ?s1 (Some ?k) (Some (int k)) (Some ''failed'') (Some ?note) =
      (?s2, Inr (PostUpdated (int k) ?k (Formatted ?p2)))"
    using mark_post_succeeds[OF assms(2) l1 a1(3) a1(1) a1(2) ready_in_valid(3), of "Some ?note"]
    by (simp add: Let_def)
  have ep: "execute_post env fl ?st2 (Some a) (Some ?info) =
      (?st2\<lparr>world := w', tool := ?s2\<rparr>,
       Inr (''Error executing post '' @ str_nat k @ '': '' @ exn_str e))"
    using assms(7) m2
    by (simp add: execute_post_def gt Let_def run_agent_def tool_execute_mark str_index_def)
  have "loop_body env fl st result =
      Again (?st2\<lparr>world := w', tool := ?s2\<rparr>)
        (result @ ''Error executing post '' @ str_nat k @ '': '' @ exn_str e @ newline)"
    using ex assms(8) by (simp add: loop_body_def g ep)
  then show ?thesis
    by (intro exI[of _ "?st2\<lparr>world := w', tool := ?s2\<rparr>"])
      (simp add: cur_plan_def AList.update_conv')
qed

text \<open>
  Claim C2 fails at the \<open>mark_post\<close> call after an executor failure. The plan of the one
  post without \<open>content\<close> is what \<open>create\<close> stores. On it every \<open>mark_post\<close> writes and
  then raises \<open>KeyError\<close> from the rendering. Before the run of the post this is caught:
  \<open>_get_current_post_info\<close> returns the post, marked ready. After the agent has raised,
  the same error leaves \<open>_execute_post\<close> and the loop, and \<open>execute\<close> returns the failure
  text of the whole run.
\<close>

theorem mark_failed_error_aborts_run:
  "execute_all empty_store [headless_create] = tool headless_session \<and>
   snd (tool_execute (tool headless_session) (mark_post_call ''p1'' (Some 0) ''ready'' None)) =
     Inl (KeyError ''content'') \<and>
   get_current_post_info demo_flow headless_session =
     (headless_session\<lparr>tool := \<lparr>plans = [(''p1'', \<lparr>plan_id = ''p1'', title = ''Launch'',
          posts = [headless_post], post_statuses = [''ready''], post_notes = ['''']\<rparr>)],
          current_plan_id = Some ''p1''\<rparr>\<rparr>,
      Some 0, Some (post.extend headless_post \<lparr>ptype = ''text''\<rparr>)) \<and>
   execute failing_env demo_flow headless_session [] =
     (\<lparr>tool = \<lparr>plans = [(''p1'', \<lparr>plan_id = ''p1'', title = ''Launch'',
          posts = [headless_post], post_statuses = [''failed''],
          post_notes = [''Error: boom'']\<rparr>)], current_plan_id = Some ''p1''\<rparr>,
       current_post_index = Some 0, world = 1\<rparr>,
      Return (''Execution failed: '' @ quoted ''content''))"
proof -
  have evaluated: "snd (tool_execute (tool headless_session) (mark_post_call ''p1'' (Some 0) ''ready'' None)) =
     Inl (KeyError ''content'') \<and>
   get_current_post_info demo_flow headless_session =
     (headless_session\<lparr>tool := \<lparr>plans = [(''p1'', \<lparr>plan_id = ''p1'', title = ''Launch'',
          posts = [headless_post], post_statuses = [''ready''], post_notes = ['''']\<rparr>)],
          current_plan_id = Some ''p1''\<rparr>\<rparr>,
      Some 0, Some (post.extend headless_post \<lparr>ptype = ''text''\<rparr>)) \<and>
   execute failing_env demo_flow headless_session [] =
     (\<lparr>tool = \<lparr>plans = [(''p1'', \<lparr>plan_id = ''p1'', title = ''Launch'',
          posts = [headless_post], post_statuses = [''failed''],
          post_notes = [''Error: boom'']\<rparr>)], current_plan_id = Some ''p1''\<rparr>,
       current_post_index = Some 0, world = 1\<rparr>,
      Return (''Execution failed: '' @ quoted ''content''))"
    by (simp add: flow_defs demo_defs quoted_def)
  show ?thesis using headless_store_created evaluated by (rule conjI)
qed

text \<open>
  Claim C7 holds on the plan of two complete posts: both runs of the agent raise, both
  posts end failed with the note \<open>Error: boom\<close>, and the run goes on to the summary. It
  fails on the plan that \<open>create\<close> stores for a post without \<open>content\<close> followed by a
  complete one: the first post is marked failed with its note, but the \<open>KeyError\<close> of that
  \<open>mark_post\<close> call ends the run, and the second post stays in draft and is never run.
\<close>

theorem executor_error_aborts_run:
  "execute failing_env demo_flow fresh_session [] =
     (\<lparr>tool = \<lparr>plans = [(''p1'', fresh_plan\<lparr>post_statuses := [''failed'', ''failed''],
          post_notes := [''Error: boom'', ''Error: boom'']\<rparr>)], current_plan_id = Some ''p1''\<rparr>,
       current_post_index = None, world = 2\<rparr>,
      Return (''Error executing post 0: boom'' @ newline @ ''Error executing post 1: boom'' @
              newline @ completed_prefix @ ''summary'')) \<and>
   execute_all empty_store [mixed_create] = tool mixed_session \<and>
   execute failing_env demo_flow mixed_session [] =
     (\<lparr>tool = \<lparr>plans = [(''p1'', \<lparr>plan_id = ''p1'', title = ''Launch'',
          posts = [headless_post, demo_post1], post_statuses = [''failed'', ''draft''],
          post_notes = [''Error: boom'', '''']\<rparr>)], current_plan_id = Some ''p1''\<rparr>,
       current_post_index = Some 0, world = 1\<rparr>,
      Return (''Execution failed: '' @ quoted ''content''))"
proof -
  have complete: "execute failing_env demo_flow fresh_session [] =
     (\<lparr>tool = \<lparr>plans = [(''p1'', fresh_plan\<lparr>post_statuses := [''failed'', ''failed''],
          post_notes := [''Error: boom'', ''Error: boom'']\<rparr>)], current_plan_id = Some ''p1''\<rparr>,
       current_post_index = None, world = 2\<rparr>,
      Return (''Error executing post 0: boom'' @ newline @ ''Error executing post 1: boom'' @
              newline @ completed_prefix @ ''summary''))"
    by (simp add: flow_defs demo_defs newline_def completed_prefix_def str_index_def)
  have headless: "execute failing_env demo_flow mixed_session [] =
     (\<lparr>tool = \<lparr>plans = [(''p1'', \<lparr>plan_id = ''p1'', title = ''Launch'',
          posts = [headless_post, demo_post1], post_statuses = [''failed'', ''draft''],
          post_notes = [''Error: boom'', '''']\<rparr>)], current_plan_id = Some ''p1''\<rparr>,
       current_post_index = Some 0, world = 1\<rparr>,
      Return (''Execution failed: '' @ quoted ''content''))"
    by (simp add: flow_defs demo_defs quoted_def)
  show ?thesis using complete mixed_store_created headless by (intro conjI)
qed

end
